theory Spec2Isabelle
  imports Main "HOL-Library.Word"
begin

section \<open>Data model (solution.go, lines 16-41)\<close>

text \<open>
  Go strings are byte sequences; \<open>len\<close> counts bytes. A \<open>string\<close> here is a list of
  8-bit characters, one per byte.
\<close>

record Item =
  ShortDescription :: string
  Price :: string

record Receipt =
  Retailer :: string
  PurchaseDate :: string
  PurchaseTime :: string
  Items :: "Item list"
  Total :: string

text \<open>Go's \<open>int\<close> on a 64-bit platform: arithmetic wraps, \<open>sint\<close> reads the value.\<close>

type_synonym gint = "64 word"

text \<open>The two global maps of lines 37-41 (the mutex is modelled with the handlers).\<close>

record store =
  receipts :: "string \<rightharpoonup> Receipt"
  points :: "string \<rightharpoonup> gint"

section \<open>Bytes and character classes\<close>

definition byte :: "char \<Rightarrow> nat" where
  "byte c = of_char c"

definition in_range :: "char \<Rightarrow> char \<Rightarrow> char \<Rightarrow> bool" where
  "in_range lo hi c = (byte lo \<le> byte c \<and> byte c \<le> byte hi)"

definition is_digit :: "char \<Rightarrow> bool" where
  "is_digit c = in_range (CHR ''0'') (CHR ''9'') c"

definition digit_val :: "char \<Rightarrow> nat" where
  "digit_val c = byte c - 48"

text \<open>
  A character class of a regular expression, as the list of its ranges:
  \<open>[a-f0-9\-]\<close> is \<open>[(a,f),(0,9),(-,-)]\<close>.
\<close>

type_synonym cclass = "(char \<times> char) list"

fun in_class :: "cclass \<Rightarrow> char \<Rightarrow> bool" where
  "in_class [] c = False"
| "in_class ((lo, hi) # rs) c = (in_range lo hi c \<or> in_class rs c)"

text \<open>
  RE2's Perl classes are ASCII-only: \<open>\d = [0-9]\<close>, \<open>\w = [0-9A-Za-z_]\<close>,
  \<open>\s = [\t\n\f\r ]\<close> (no vertical tab).
\<close>

definition cls_d :: cclass where
  "cls_d = [(CHR ''0'', CHR ''9'')]"

definition cls_w :: cclass where
  "cls_w = [(CHR ''0'', CHR ''9''), (CHR ''A'', CHR ''Z''), (CHR ''_'', CHR ''_''),
            (CHR ''a'', CHR ''z'')]"

definition cls_s :: cclass where
  "cls_s = [(CHR 0x09, CHR 0x0A), (CHR 0x0C, CHR 0x0D), (CHR '' '', CHR '' '')]"

section \<open>Library functions used by the scorer\<close>

subsection \<open>strings.Split with a one-byte separator\<close>

fun Split :: "string \<Rightarrow> char \<Rightarrow> string list" where
  "Split [] sep = [[]]"
| "Split (c # cs) sep =
     (if c = sep then [] # Split cs sep
      else (case Split cs sep of [] \<Rightarrow> [[c]] | p # ps \<Rightarrow> (c # p) # ps))"

subsection \<open>strings.TrimSpace\<close>

text \<open>
  \<open>unicode.IsSpace\<close>: the ASCII bytes \<open>\t \n \v \f \r\<close> and space, and the code points
  U+0085, U+00A0, U+1680, U+2000..U+200A, U+2028, U+2029, U+202F, U+205F, U+3000, here
  as their UTF-8 encodings. \<open>space_prefix s\<close> is the number of bytes of the white-space
  rune that \<open>s\<close> starts with (0 when it starts with none).
\<close>

definition ascii_space :: "char \<Rightarrow> bool" where
  "ascii_space c = (in_range (CHR 0x09) (CHR 0x0D) c \<or> c = CHR '' '')"

fun space_prefix :: "string \<Rightarrow> nat" where
  "space_prefix [] = 0"
| "space_prefix [a] = (if ascii_space a then 1 else 0)"
| "space_prefix [a, b] =
     (if ascii_space a then 1
      else if a = CHR 0xC2 \<and> (b = CHR 0x85 \<or> b = CHR 0xA0) then 2 else 0)"
| "space_prefix (a # b # c # rest) =
     (if ascii_space a then 1
      else if a = CHR 0xC2 \<and> (b = CHR 0x85 \<or> b = CHR 0xA0) then 2
      else if a = CHR 0xE1 \<and> b = CHR 0x9A \<and> c = CHR 0x80 then 3
      else if a = CHR 0xE2 \<and> b = CHR 0x80 \<and>
              (in_range (CHR 0x80) (CHR 0x8A) c \<or> c = CHR 0xA8 \<or> c = CHR 0xA9 \<or> c = CHR 0xAF)
           then 3
      else if a = CHR 0xE2 \<and> b = CHR 0x81 \<and> c = CHR 0x9F then 3
      else if a = CHR 0xE3 \<and> b = CHR 0x80 \<and> c = CHR 0x80 then 3
      else 0)"

text \<open>The same for the rune a string ends with; the argument is the reversed string.\<close>

fun space_suffix_rev :: "string \<Rightarrow> nat" where
  "space_suffix_rev [] = 0"
| "space_suffix_rev [a] = (if ascii_space a then 1 else 0)"
| "space_suffix_rev [a, b] =
     (if ascii_space a then 1
      else if b = CHR 0xC2 \<and> (a = CHR 0x85 \<or> a = CHR 0xA0) then 2 else 0)"
| "space_suffix_rev (a # b # c # rest) =
     (if ascii_space a then 1
      else if b = CHR 0xC2 \<and> (a = CHR 0x85 \<or> a = CHR 0xA0) then 2
      else if c = CHR 0xE1 \<and> b = CHR 0x9A \<and> a = CHR 0x80 then 3
      else if c = CHR 0xE2 \<and> b = CHR 0x80 \<and>
              (in_range (CHR 0x80) (CHR 0x8A) a \<or> a = CHR 0xA8 \<or> a = CHR 0xA9 \<or> a = CHR 0xAF)
           then 3
      else if c = CHR 0xE2 \<and> b = CHR 0x81 \<and> a = CHR 0x9F then 3
      else if c = CHR 0xE3 \<and> b = CHR 0x80 \<and> a = CHR 0x80 then 3
      else 0)"

lemma space_prefix_pos: "0 < space_prefix s \<Longrightarrow> length s - space_prefix s < length s"
  by (cases s) auto

lemma space_suffix_rev_pos:
  "0 < space_suffix_rev s \<Longrightarrow> length s - space_suffix_rev s < length s"
  by (cases s) auto

function TrimLeft :: "string \<Rightarrow> string" where
  "TrimLeft s = (if space_prefix s = 0 then s else TrimLeft (drop (space_prefix s) s))"
  by pat_completeness auto
termination
  by (relation "measure length") (simp_all add: space_prefix_pos)

function TrimRightRev :: "string \<Rightarrow> string" where
  "TrimRightRev s =
     (if space_suffix_rev s = 0 then s else TrimRightRev (drop (space_suffix_rev s) s))"
  by pat_completeness auto
termination
  by (relation "measure length") (simp_all add: space_suffix_rev_pos)

declare TrimLeft.simps [simp del] TrimRightRev.simps [simp del]

definition TrimSpace :: "string \<Rightarrow> string" where
  "TrimSpace s = rev (TrimRightRev (rev (TrimLeft s)))"

subsection \<open>strconv.Atoi\<close>

datatype NumError = ErrSyntax | ErrRange

definition maxUint64 :: nat where
  "maxUint64 = 2 ^ 64 - 1"

text \<open>
  The loop of \<open>ParseUint(s, 10, 64)\<close>: \<open>cutoff = maxUint64/10 + 1\<close>; a byte that is not a
  decimal digit is a syntax error; on overflow the result is \<open>maxUint64\<close> with a range
  error, returned at once.
\<close>

fun ParseUint_loop :: "string \<Rightarrow> nat \<Rightarrow> nat \<times> NumError option" where
  "ParseUint_loop [] n = (n, None)"
| "ParseUint_loop (c # cs) n =
     (if \<not> is_digit c then (0, Some ErrSyntax)
      else if maxUint64 div 10 + 1 \<le> n then (maxUint64, Some ErrRange)
      else if maxUint64 < n * 10 + digit_val c then (maxUint64, Some ErrRange)
      else ParseUint_loop cs (n * 10 + digit_val c))"

definition ParseUint :: "string \<Rightarrow> nat \<times> NumError option" where
  "ParseUint s = (if s = [] then (0, Some ErrSyntax) else ParseUint_loop s 0)"

text \<open>\<open>ParseInt(s, 10, 0)\<close>: the sign is picked off, the range is that of int64.\<close>

definition ParseInt :: "string \<Rightarrow> int \<times> NumError option" where
  "ParseInt s =
     (case s of
        [] \<Rightarrow> (0, Some ErrSyntax)
      | c # cs \<Rightarrow>
          (let neg = (c = CHR ''-'');
               s1 = (if c = CHR ''+'' \<or> c = CHR ''-'' then cs else s);
               (un, err) = ParseUint s1
           in if err = Some ErrSyntax then (0, Some ErrSyntax)
              else if \<not> neg \<and> 2 ^ 63 \<le> un then (2 ^ 63 - 1, Some ErrRange)
              else if neg \<and> 2 ^ 63 < un then (- (2 ^ 63), Some ErrRange)
              else (if neg then - int un else int un, None)))"

text \<open>The fast path of \<open>Atoi\<close>, taken for strings of 1 to 18 bytes.\<close>

fun Atoi_fast :: "string \<Rightarrow> int \<Rightarrow> int option" where
  "Atoi_fast [] n = Some n"
| "Atoi_fast (ch # cs) n =
     (if \<not> is_digit ch then None else Atoi_fast cs (n * 10 + int (digit_val ch)))"

definition Atoi :: "string \<Rightarrow> int \<times> NumError option" where
  "Atoi s =
     (case s of
        [] \<Rightarrow> ParseInt s
      | c # cs \<Rightarrow>
          if length s < 19 then
            (let s1 = (if c = CHR ''-'' \<or> c = CHR ''+'' then cs else s)
             in if length s1 < 1 then (0, Some ErrSyntax)
                else (case Atoi_fast s1 0 of
                        None \<Rightarrow> (0, Some ErrSyntax)
                      | Some n \<Rightarrow> (if c = CHR ''-'' then - n else n, None)))
          else ParseInt s)"

text \<open>Go's \<open>%\<close> truncates towards zero: the result has the sign of the dividend.\<close>

definition go_rem :: "int \<Rightarrow> int \<Rightarrow> int" where
  "go_rem a b = sgn a * (\<bar>a\<bar> mod \<bar>b\<bar>)"

subsection \<open>float64\<close>

text \<open>
  A float64 value: \<open>Fin m e\<close> is the finite value \<open>m * 2^e\<close> (the two zeros are not
  told apart: nothing in the scorer observes the sign of a zero), and the three special
  values.
\<close>

datatype f64 = Fin int int | PInf | NInf | NaN

fun bitlen :: "nat \<Rightarrow> nat" where
  "bitlen n = (if n = 0 then 0 else Suc (bitlen (n div 2)))"

declare bitlen.simps [simp del]

text \<open>\<open>floor_log2 N D\<close> is the integer part of the binary logarithm of \<open>N / D\<close>.\<close>

definition floor_log2 :: "nat \<Rightarrow> nat \<Rightarrow> int" where
  "floor_log2 N D =
     (let b = int (bitlen N) - int (bitlen D)
      in if D * 2 ^ nat b \<le> N * 2 ^ nat (- b) then b else b - 1)"

definition round_half_even :: "nat \<Rightarrow> nat \<Rightarrow> nat" where
  "round_half_even n d =
     (let q = n div d; r = n mod d
      in if 2 * r < d then q else if d < 2 * r then q + 1
         else if even q then q else q + 1)"

text \<open>
  IEEE 754 round-to-nearest-even of the rational \<open>N / D\<close> (negated when \<open>neg\<close>) to
  binary64: 53 bits of precision, least exponent \<open>-1074\<close> for subnormals, overflow to
  an infinity from \<open>2^1024 - 2^970\<close> on.
\<close>

definition f64_round :: "bool \<Rightarrow> nat \<Rightarrow> nat \<Rightarrow> f64" where
  "f64_round neg N D =
     (if N = 0 then Fin 0 0
      else (let e = floor_log2 N D;
                p = max e (- 1022) - 52;
                m = round_half_even (N * 2 ^ nat (- p)) (D * 2 ^ nat p)
            in if 971 < p \<or> (p = 971 \<and> 2 ^ 53 \<le> m) then (if neg then NInf else PInf)
               else Fin (if neg then - int m else int m) p))"

definition f64_of_scaled :: "int \<Rightarrow> int \<Rightarrow> f64" where
  "f64_of_scaled m e = f64_round (m < 0) (nat \<bar>m\<bar> * 2 ^ nat e) (2 ^ nat (- e))"

fun f64_mul :: "f64 \<Rightarrow> f64 \<Rightarrow> f64" where
  "f64_mul (Fin m1 e1) (Fin m2 e2) = f64_of_scaled (m1 * m2) (e1 + e2)"
| "f64_mul NaN y = NaN"
| "f64_mul x NaN = NaN"
| "f64_mul (Fin m e) PInf = (if m = 0 then NaN else if 0 < m then PInf else NInf)"
| "f64_mul (Fin m e) NInf = (if m = 0 then NaN else if 0 < m then NInf else PInf)"
| "f64_mul PInf (Fin m e) = (if m = 0 then NaN else if 0 < m then PInf else NInf)"
| "f64_mul NInf (Fin m e) = (if m = 0 then NaN else if 0 < m then NInf else PInf)"
| "f64_mul PInf PInf = PInf"
| "f64_mul PInf NInf = NInf"
| "f64_mul NInf PInf = NInf"
| "f64_mul NInf NInf = PInf"

text \<open>
  \<open>math.Mod(x, y)\<close>: the remainder has the sign of \<open>x\<close> and is exact;
  \<open>Mod(\<plusminus>Inf, y) = Mod(NaN, y) = Mod(x, 0) = Mod(x, NaN) = NaN\<close>, \<open>Mod(x, \<plusminus>Inf) = x\<close>.
\<close>

fun Mod :: "f64 \<Rightarrow> f64 \<Rightarrow> f64" where
  "Mod (Fin m1 e1) (Fin m2 e2) =
     (if m2 = 0 then NaN
      else (let e0 = min e1 e2;
                a = \<bar>m1\<bar> * 2 ^ nat (e1 - e0);
                b = \<bar>m2\<bar> * 2 ^ nat (e2 - e0)
            in Fin (sgn m1 * (a mod b)) e0))"
| "Mod NaN y = NaN"
| "Mod x NaN = NaN"
| "Mod PInf y = NaN"
| "Mod NInf y = NaN"
| "Mod (Fin m e) PInf = Fin m e"
| "Mod (Fin m e) NInf = Fin m e"

text \<open>\<open>math.Ceil\<close>: the least integer value not below \<open>x\<close>; special values are kept.\<close>

fun Ceil :: "f64 \<Rightarrow> f64" where
  "Ceil (Fin m e) = (if 0 \<le> e then Fin m e else Fin (- ((- m) div 2 ^ nat (- e))) 0)"
| "Ceil x = x"

text \<open>The comparison \<open>x == 0\<close>.\<close>

fun f64_is_zero :: "f64 \<Rightarrow> bool" where
  "f64_is_zero (Fin m e) = (m = 0)"
| "f64_is_zero x = False"

text \<open>
  The conversion \<open>int(x)\<close> truncates towards zero. For a value that int64 cannot
  represent (and for an infinity or NaN) the Go specification leaves the result to the
  implementation: it is the parameter \<open>impl\<close>.
\<close>

definition f64_trunc :: "int \<Rightarrow> int \<Rightarrow> int" where
  "f64_trunc m e = (if 0 \<le> e then m * 2 ^ nat e else sgn m * (\<bar>m\<bar> div 2 ^ nat (- e)))"

fun f64_to_int :: "(f64 \<Rightarrow> gint) \<Rightarrow> f64 \<Rightarrow> gint" where
  "f64_to_int impl (Fin m e) =
     (let t = f64_trunc m e
      in if - (2 ^ 63) \<le> t \<and> t < 2 ^ 63 then word_of_int t else impl (Fin m e))"
| "f64_to_int impl x = impl x"

text \<open>The constants \<open>1\<close>, \<open>0.25\<close> (both exact) and \<open>0.2\<close> (rounded) of lines 53-67.\<close>

definition c_1 :: f64 where
  "c_1 = Fin 1 0"

definition c_0_25 :: f64 where
  "c_0_25 = Fin 1 (- 2)"

definition c_0_2 :: f64 where
  "c_0_2 = f64_round False 1 5"

subsection \<open>strconv.ParseFloat(s, 64)\<close>

text \<open>\<open>lower(c) = c | ('x' - 'X')\<close>: bit 5 of the byte is set.\<close>

definition lower :: "char \<Rightarrow> char" where
  "lower c = (if (byte c div 32) mod 2 = 0 then char_of (byte c + 32) else c)"

fun commonPrefixLenIgnoreCase :: "string \<Rightarrow> string \<Rightarrow> nat" where
  "commonPrefixLenIgnoreCase (c # cs) (p # ps) =
     (if (if in_range (CHR ''A'') (CHR ''Z'') c then char_of (byte c + 32) else c) = p
      then Suc (commonPrefixLenIgnoreCase cs ps) else 0)"
| "commonPrefixLenIgnoreCase cs ps = 0"

text \<open>
  \<open>special\<close>: an optionally signed \<open>inf\<close> or \<open>infinity\<close>, or \<open>nan\<close>, in any case of
  letters; the result is the value and the number of bytes read.
\<close>

definition special_inf :: "bool \<Rightarrow> nat \<Rightarrow> string \<Rightarrow> (f64 \<times> nat) option" where
  "special_inf neg nsign s =
     (let n0 = commonPrefixLenIgnoreCase s ''infinity'';
          n = (if 3 < n0 \<and> n0 < 8 then 3 else n0)
      in if n = 3 \<or> n = 8 then Some (if neg then NInf else PInf, nsign + n) else None)"

definition special :: "string \<Rightarrow> (f64 \<times> nat) option" where
  "special s =
     (case s of
        [] \<Rightarrow> None
      | c # cs \<Rightarrow>
          if c = CHR ''+'' \<or> c = CHR ''-'' then special_inf (c = CHR ''-'') 1 cs
          else if c = CHR ''i'' \<or> c = CHR ''I'' then special_inf False 0 s
          else if c = CHR ''n'' \<or> c = CHR ''N'' then
            (if commonPrefixLenIgnoreCase s ''nan'' = 3 then Some (NaN, 3) else None)
          else None)"

text \<open>
  \<open>readFloat\<close>, the digits: \<open>mant\<close> is the number the \<open>nd\<close> digits after the leading
  zeros spell, \<open>dp\<close> the position of the point. (The source keeps the first 19 digits
  and a flag for the rest, from which its conversion still rounds the whole number
  correctly; the model keeps the whole number.)
\<close>

record mstate =
  mant :: nat
  nd :: nat
  dp :: int
  sawdot :: bool
  sawdigits :: bool
  underscores :: bool

fun mant_loop :: "bool \<Rightarrow> string \<Rightarrow> mstate \<Rightarrow> mstate \<times> string" where
  "mant_loop hex [] st = (st, [])"
| "mant_loop hex (c # cs) st =
     (if c = CHR ''_'' then mant_loop hex cs (st\<lparr>underscores := True\<rparr>)
      else if c = CHR ''.'' then
        (if sawdot st then (st, c # cs)
         else mant_loop hex cs (st\<lparr>sawdot := True, dp := int (nd st)\<rparr>))
      else if is_digit c then
        (if c = CHR ''0'' \<and> nd st = 0
         then mant_loop hex cs (st\<lparr>sawdigits := True, dp := dp st - 1\<rparr>)
         else mant_loop hex cs
                (st\<lparr>sawdigits := True, nd := nd st + 1,
                    mant := mant st * (if hex then 16 else 10) + digit_val c\<rparr>))
      else if hex \<and> in_range (CHR ''a'') (CHR ''f'') (lower c) then
        mant_loop hex cs
          (st\<lparr>sawdigits := True, nd := nd st + 1,
              mant := mant st * 16 + (byte (lower c) - 97 + 10)\<rparr>)
      else (st, c # cs))"

text \<open>The digits of the exponent; the exponent stops growing at 10000.\<close>

fun exp_loop :: "string \<Rightarrow> nat \<Rightarrow> bool \<Rightarrow> nat \<times> bool \<times> string" where
  "exp_loop [] e us = (e, us, [])"
| "exp_loop (c # cs) e us =
     (if c = CHR ''_'' then exp_loop cs e True
      else if is_digit c then exp_loop cs (if e < 10000 then e * 10 + digit_val c else e) us
      else (e, us, c # cs))"

text \<open>
  \<open>underscoreOK\<close>: an underscore stands only between digits, or between a base prefix
  and a digit. \<open>saw\<close> is the last byte's kind: \<open>0\<close> a digit, \<open>_\<close>, or \<open>!\<close>.
\<close>

fun underscore_loop :: "bool \<Rightarrow> string \<Rightarrow> char \<Rightarrow> bool" where
  "underscore_loop hex [] saw = (saw \<noteq> CHR ''_'')"
| "underscore_loop hex (c # cs) saw =
     (if is_digit c \<or> (hex \<and> in_range (CHR ''a'') (CHR ''f'') (lower c))
      then underscore_loop hex cs (CHR ''0'')
      else if c = CHR ''_'' then (if saw \<noteq> CHR ''0'' then False else underscore_loop hex cs (CHR ''_''))
      else if saw = CHR ''_'' then False
      else underscore_loop hex cs (CHR ''!''))"

definition underscoreOK :: "string \<Rightarrow> bool" where
  "underscoreOK s =
     (let s1 = (case s of [] \<Rightarrow> s | c # cs \<Rightarrow> if c = CHR ''-'' \<or> c = CHR ''+'' then cs else s)
      in case s1 of
           a # b # rest \<Rightarrow>
             if a = CHR ''0'' \<and> (lower b = CHR ''b'' \<or> lower b = CHR ''o'' \<or> lower b = CHR ''x'')
             then underscore_loop (lower b = CHR ''x'') rest (CHR ''0'')
             else underscore_loop False s1 (CHR ''^'')
         | _ \<Rightarrow> underscore_loop False s1 (CHR ''^''))"

text \<open>
  \<open>readFloat\<close> and the check of \<open>ParseFloat\<close> that the whole string was read: the
  result is \<open>None\<close> for a syntax error, else the sign and the number read, as
  \<open>mant * base^x\<close> with base 10, or base 2 for a hexadecimal literal (which must have
  its \<open>p\<close> exponent). \<open>read_exponent\<close> reads what follows the exponent letter,
  \<open>read_rest\<close> what follows the digits.
\<close>

definition read_exponent :: "string \<Rightarrow> bool \<Rightarrow> (int \<times> bool) option" where
  "read_exponent cs us0 =
     (case cs of
        [] \<Rightarrow> None
      | d # ds \<Rightarrow>
          (let esign = (if d = CHR ''-'' then (- 1) else (1::int));
               ds1 = (if d = CHR ''+'' \<or> d = CHR ''-'' then ds else cs)
           in (case ds1 of
                 [] \<Rightarrow> None
               | f # fs \<Rightarrow>
                   if \<not> is_digit f then None
                   else (case exp_loop ds1 0 us0 of
                           (e, us, rest2) \<Rightarrow>
                             if rest2 \<noteq> [] then None else Some (int e * esign, us)))))"

definition hex_prefix :: "string \<Rightarrow> bool" where
  "hex_prefix s1 =
     (case s1 of a # b # c # rest \<Rightarrow> a = CHR ''0'' \<and> lower b = CHR ''x'' | _ \<Rightarrow> False)"

definition mstate0 :: mstate where
  "mstate0 = \<lparr>mant = 0, nd = 0, dp = 0, sawdot = False, sawdigits = False, underscores = False\<rparr>"

fun read_rest ::
  "string \<Rightarrow> bool \<Rightarrow> bool \<Rightarrow> mstate \<times> string \<Rightarrow> (bool \<times> bool \<times> nat \<times> int) option" where
  "read_rest s neg hex (st, rest) =
     (let dp1 = (if sawdot st then dp st else int (nd st));
          dp2 = (if hex then dp1 * 4 else dp1);
          ndm = (if hex then int (nd st) * 4 else int (nd st));
          expChar = (if hex then CHR ''p'' else CHR ''e'')
      in if \<not> sawdigits st then None
         else (case rest of
                 [] \<Rightarrow>
                   if hex then None
                   else if underscores st \<and> \<not> underscoreOK s then None
                   else Some (neg, hex, mant st, if mant st = 0 then 0 else dp2 - ndm)
               | c # cs \<Rightarrow>
                   if lower c \<noteq> expChar then None
                   else (case read_exponent cs (underscores st) of
                           None \<Rightarrow> None
                         | Some (e, us) \<Rightarrow>
                             if us \<and> \<not> underscoreOK s then None
                             else Some (neg, hex, mant st,
                                    if mant st = 0 then 0 else dp2 + e - ndm))))"

definition readFloat :: "string \<Rightarrow> (bool \<times> bool \<times> nat \<times> int) option" where
  "readFloat s =
     (case s of
        [] \<Rightarrow> None
      | c0 # cs0 \<Rightarrow>
          (let neg = (c0 = CHR ''-'');
               s1 = (if c0 = CHR ''+'' \<or> c0 = CHR ''-'' then cs0 else s);
               hex = hex_prefix s1
           in read_rest s neg hex (mant_loop hex (if hex then drop 2 s1 else s1) mstate0)))"

text \<open>
  \<open>ParseFloat\<close> returns the nearest float64, rounded to even. A syntax error gives 0, a
  number too large gives an infinity with a range error; one too small gives 0 and no
  error.
\<close>

fun atof64 :: "bool \<times> bool \<times> nat \<times> int \<Rightarrow> f64 \<times> NumError option" where
  "atof64 (neg, hex, m, x) =
     (let b = (if hex then 2 else 10 :: nat);
          f = f64_round neg (m * b ^ nat x) (b ^ nat (- x))
      in (f, if f = PInf \<or> f = NInf then Some ErrRange else None))"

definition ParseFloat :: "string \<Rightarrow> f64 \<times> NumError option" where
  "ParseFloat s =
     (case special s of
        Some (v, n) \<Rightarrow> if n = length s then (v, None) else (Fin 0 0, Some ErrSyntax)
      | None \<Rightarrow>
          (case readFloat s of
             None \<Rightarrow> (Fin 0 0, Some ErrSyntax)
           | Some r \<Rightarrow> atof64 r))"

subsection \<open>regexp: ReplaceAllString with a negated character class\<close>

text \<open>
  \<open>regexp.MustCompile(`[^a-zA-Z0-9]`).ReplaceAllString(s, repl)\<close>: every match is one
  rune outside the class. A rune outside ASCII is encoded in bytes from \<open>0x80\<close> on only,
  none of which is in the class, so with the empty replacement the bytes that stay are
  the bytes of the class.
\<close>

definition cls_alnum :: cclass where
  "cls_alnum = [(CHR ''a'', CHR ''z''), (CHR ''A'', CHR ''Z''), (CHR ''0'', CHR ''9'')]"

definition ReplaceAllString_not :: "cclass \<Rightarrow> string \<Rightarrow> string" where
  "ReplaceAllString_not cls s = filter (in_class cls) s"

section \<open>calculatePoints (solution.go, lines 44-90)\<close>

datatype panic = IndexOutOfRange

definition index :: "'a list \<Rightarrow> nat \<Rightarrow> panic + 'a" where
  "index xs i = (if i < length xs then Inr (xs ! i) else Inl IndexOutOfRange)"

text \<open>The loop of lines 63-69, with the running value of \<open>points\<close>.\<close>

fun items_loop :: "(f64 \<Rightarrow> gint) \<Rightarrow> Item list \<Rightarrow> gint \<Rightarrow> gint" where
  "items_loop impl [] pts = pts"
| "items_loop impl (item # rest) pts =
     (let description = TrimSpace (ShortDescription item)
      in if length description mod 3 = 0
         then (let price = fst (ParseFloat (Price item))
               in items_loop impl rest (pts + f64_to_int impl (Ceil (f64_mul price c_0_2))))
         else items_loop impl rest pts)"

text \<open>Lines 71-77: the odd-day rule.\<close>

definition day_rule :: "string \<Rightarrow> gint \<Rightarrow> panic + gint" where
  "day_rule purchaseDate pts =
     (let dateParts = Split purchaseDate (CHR ''-'')
      in if length dateParts = 3
         then (case index dateParts 2 of
                 Inl e \<Rightarrow> Inl e
               | Inr d \<Rightarrow>
                   (let day = fst (Atoi d)
                    in if go_rem day 2 \<noteq> 0 then Inr (pts + 6) else Inr pts))
         else Inr pts)"

text \<open>Lines 79-87: the afternoon rule; \<open>hour*60 + minute\<close> is computed in \<open>int\<close>.\<close>

definition timeVal :: "int \<Rightarrow> int \<Rightarrow> gint" where
  "timeVal hour minute = word_of_int hour * 60 + word_of_int minute"

definition time_rule :: "string \<Rightarrow> gint \<Rightarrow> panic + gint" where
  "time_rule purchaseTime pts =
     (let purchaseTimeParts = Split purchaseTime (CHR '':'')
      in if length purchaseTimeParts = 2
         then (case index purchaseTimeParts 0 of
                 Inl e \<Rightarrow> Inl e
               | Inr h \<Rightarrow>
                   (case index purchaseTimeParts 1 of
                      Inl e \<Rightarrow> Inl e
                    | Inr m \<Rightarrow>
                        (let hour = fst (Atoi h);
                             minute = fst (Atoi m);
                             tv = timeVal hour minute
                         in if 840 \<le> sint tv \<and> sint tv < 960 then Inr (pts + 10)
                            else Inr pts)))
         else Inr pts)"

definition calculatePoints :: "(f64 \<Rightarrow> gint) \<Rightarrow> Receipt \<Rightarrow> panic + gint" where
  "calculatePoints impl receipt =
     (let pts0 = 0;
          alphanumericRetailer = ReplaceAllString_not cls_alnum (Retailer receipt);
          pts1 = pts0 + of_nat (length alphanumericRetailer);
          total = fst (ParseFloat (Total receipt));
          pts2 = (if f64_is_zero (Mod total c_1) then pts1 + 50 else pts1);
          pts3 = (if f64_is_zero (Mod total c_0_25) then pts2 + 25 else pts2);
          pts4 = pts3 + of_nat (length (Items receipt) div 2) * 5;
          pts5 = items_loop impl (Items receipt) pts4
      in case day_rule (PurchaseDate receipt) pts5 of
           Inl e \<Rightarrow> Inl e
         | Inr pts6 \<Rightarrow> time_rule (PurchaseTime receipt) pts6)"

section \<open>validateReceipt (solution.go, lines 103-139)\<close>

subsection \<open>regexp: MatchString with an anchored pattern\<close>

text \<open>
  The patterns of \<open>validateReceipt\<close> are anchored at both ends (\<open>^...$\<close>, no flags, so
  \<open>$\<close> is the end of the text only) and use ASCII classes: the string matches when the
  whole of it is in the language of the expression between the anchors. That is decided
  by derivatives, byte by byte; a byte from \<open>0x80\<close> on is in none of the classes, as the
  rune it belongs to is in none.
\<close>

datatype rexp = Zero | One | Cls cclass | Alt rexp rexp | Seq rexp rexp | Star rexp

definition Lit :: "char \<Rightarrow> rexp" where
  "Lit c = Cls [(c, c)]"

definition Plus :: "rexp \<Rightarrow> rexp" where
  "Plus r = Seq r (Star r)"

fun nullable :: "rexp \<Rightarrow> bool" where
  "nullable Zero = False"
| "nullable One = True"
| "nullable (Cls cs) = False"
| "nullable (Alt r s) = (nullable r \<or> nullable s)"
| "nullable (Seq r s) = (nullable r \<and> nullable s)"
| "nullable (Star r) = True"

fun deriv :: "char \<Rightarrow> rexp \<Rightarrow> rexp" where
  "deriv c Zero = Zero"
| "deriv c One = Zero"
| "deriv c (Cls cs) = (if in_class cs c then One else Zero)"
| "deriv c (Alt r s) = Alt (deriv c r) (deriv c s)"
| "deriv c (Seq r s) =
     (if nullable r then Alt (Seq (deriv c r) s) (deriv c s) else Seq (deriv c r) s)"
| "deriv c (Star r) = Seq (deriv c r) (Star r)"

fun derivs :: "string \<Rightarrow> rexp \<Rightarrow> rexp" where
  "derivs [] r = r"
| "derivs (c # cs) r = derivs cs (deriv c r)"

definition MatchString :: "rexp \<Rightarrow> string \<Rightarrow> bool" where
  "MatchString r s = nullable (derivs s r)"

text \<open>Line 108: \<open>^[\w\s\-&]+$\<close>; line 121: \<open>^\d+\.\d{2}$\<close>; line 130: \<open>^[\w\s\-]+$\<close>.\<close>

definition retailerPattern :: rexp where
  "retailerPattern = Plus (Cls (cls_w @ cls_s @ [(CHR ''-'', CHR ''-''), (CHR ''&'', CHR ''&'')]))"

definition totalPricePattern :: rexp where
  "totalPricePattern =
     Seq (Plus (Cls cls_d)) (Seq (Lit (CHR ''.'')) (Seq (Cls cls_d) (Cls cls_d)))"

definition ShortDescriptionPattern :: rexp where
  "ShortDescriptionPattern = Plus (Cls (cls_w @ cls_s @ [(CHR ''-'', CHR ''-'')]))"

subsection \<open>time.Parse with the layouts "2006-01-02" and "15:04"\<close>

text \<open>
  \<open>getnum\<close> reads one or two digits; with \<open>fixed\<close> it must be two.
\<close>

definition getnum :: "string \<Rightarrow> bool \<Rightarrow> (nat \<times> string) option" where
  "getnum s fixed =
     (case s of
        [] \<Rightarrow> None
      | a # r \<Rightarrow>
          if \<not> is_digit a then None
          else (case r of
                  [] \<Rightarrow> if fixed then None else Some (digit_val a, r)
                | b # r2 \<Rightarrow>
                    if \<not> is_digit b then (if fixed then None else Some (digit_val a, r))
                    else Some (digit_val a * 10 + digit_val b, r2)))"

text \<open>\<open>skip\<close> for a one-byte literal of the layout that is not a space.\<close>

definition skip :: "string \<Rightarrow> char \<Rightarrow> string option" where
  "skip s c = (case s of [] \<Rightarrow> None | a # r \<Rightarrow> if a = c then Some r else None)"

definition isLeap :: "nat \<Rightarrow> bool" where
  "isLeap year = (year mod 4 = 0 \<and> (year mod 100 \<noteq> 0 \<or> year mod 400 = 0))"

definition daysIn :: "nat \<Rightarrow> nat \<Rightarrow> nat" where
  "daysIn m year =
     (if m = 2 \<and> isLeap year then 29
      else [31, 28, 31, 30, 31, 30, 31, 31, 30, 31, 30, 31] ! (m - 1))"

text \<open>
  The element \<open>2006\<close> takes four bytes, all digits; \<open>01\<close> and \<open>02\<close> two digits each; the
  month must be in 1..12; nothing may follow; at the end the day must exist in the
  month. The result is year, month and day.
\<close>

definition Parse_date :: "string \<Rightarrow> (nat \<times> nat \<times> nat) option" where
  "Parse_date v0 =
     (if length v0 < 4 \<or> \<not> list_all is_digit (take 4 v0) then None
      else (let year = foldl (\<lambda>n c. n * 10 + digit_val c) 0 (take 4 v0)
            in case skip (drop 4 v0) (CHR ''-'') of
                 None \<Rightarrow> None
               | Some v1 \<Rightarrow>
                   (case getnum v1 True of
                      None \<Rightarrow> None
                    | Some (month, v2) \<Rightarrow>
                        if month \<le> 0 \<or> 12 < month then None
                        else (case skip v2 (CHR ''-'') of
                                None \<Rightarrow> None
                              | Some v3 \<Rightarrow>
                                  (case getnum v3 True of
                                     None \<Rightarrow> None
                                   | Some (day, v4) \<Rightarrow>
                                       if v4 \<noteq> [] then None
                                       else if day < 1 \<or> daysIn month year < day then None
                                       else Some (year, month, day))))))"

text \<open>
  The element \<open>15\<close> takes one or two digits, below 24; \<open>04\<close> takes two digits, below 60.
  The result is hour and minute.
\<close>

definition Parse_time :: "string \<Rightarrow> (nat \<times> nat) option" where
  "Parse_time v0 =
     (case getnum v0 False of
        None \<Rightarrow> None
      | Some (hour, v1) \<Rightarrow>
          if 24 \<le> hour then None
          else (case skip v1 (CHR '':'') of
                  None \<Rightarrow> None
                | Some v2 \<Rightarrow>
                    (case getnum v2 True of
                       None \<Rightarrow> None
                     | Some (minute, v3) \<Rightarrow>
                         if 60 \<le> minute then None
                         else if v3 \<noteq> [] then None
                         else Some (hour, minute))))"

subsection \<open>The validator\<close>

definition invalid :: string where
  "invalid = ''The receipt is invalid.''"

text \<open>The loop of lines 126-137; \<open>None\<close> when no item is refused.\<close>

fun validate_items :: "Item list \<Rightarrow> string option" where
  "validate_items [] = None"
| "validate_items (item # rest) =
     (if ShortDescription item = [] \<or> Price item = [] then Some invalid
      else if \<not> MatchString ShortDescriptionPattern (ShortDescription item) then Some invalid
      else if \<not> MatchString totalPricePattern (Price item) then Some invalid
      else validate_items rest)"

text \<open>The result is the error, \<open>None\<close> for \<open>nil\<close>.\<close>

definition validateReceipt :: "Receipt \<Rightarrow> string option" where
  "validateReceipt receipt =
     (if Retailer receipt = [] \<or> PurchaseDate receipt = [] \<or> PurchaseTime receipt = [] \<or>
         Total receipt = [] \<or> length (Items receipt) = 0
      then Some invalid
      else if \<not> MatchString retailerPattern (Retailer receipt) then Some invalid
      else if Parse_date (PurchaseDate receipt) = None then Some invalid
      else if Parse_time (PurchaseTime receipt) = None then Some invalid
      else if \<not> MatchString totalPricePattern (Total receipt) then Some invalid
      else validate_items (Items receipt))"

section \<open>The handlers (solution.go, lines 92-100 and 141-177)\<close>

subsection \<open>extractUUID\<close>

text \<open>
  \<open>FindStringSubmatch\<close> with \<open>/receipts/([a-f0-9\-]+)/points\<close>: the leftmost match, and in
  it the longest group that lets the rest of the pattern match. \<open>group_at s\<close> is the group
  of a match that starts at the first byte of \<open>s\<close>.
\<close>

definition cls_uuid :: cclass where
  "cls_uuid = [(CHR ''a'', CHR ''f''), (CHR ''0'', CHR ''9''), (CHR ''-'', CHR ''-'')]"

definition has_prefix :: "string \<Rightarrow> string \<Rightarrow> bool" where
  "has_prefix p s = (take (length p) s = p)"

fun backtrack :: "nat \<Rightarrow> string \<Rightarrow> string option" where
  "backtrack 0 rest = None"
| "backtrack (Suc j) rest =
     (if has_prefix ''/points'' (drop (Suc j) rest) then Some (take (Suc j) rest)
      else backtrack j rest)"

definition group_at :: "string \<Rightarrow> string option" where
  "group_at s =
     (if has_prefix ''/receipts/'' s
      then (let rest = drop (length ''/receipts/'') s
            in backtrack (length (takeWhile (in_class cls_uuid) rest)) rest)
      else None)"

fun FindStringSubmatch :: "string \<Rightarrow> string option" where
  "FindStringSubmatch [] = group_at []"
| "FindStringSubmatch (c # cs) =
     (case group_at (c # cs) of Some g \<Rightarrow> Some g | None \<Rightarrow> FindStringSubmatch cs)"

definition extractUUID :: "string \<Rightarrow> string" where
  "extractUUID url = (case FindStringSubmatch url of Some g \<Rightarrow> g | None \<Rightarrow> [])"

subsection \<open>The two handlers, run one at a time\<close>

text \<open>
  What a handler writes to the client: the JSON body with the identifier, the JSON body
  with the points, or \<open>http.Error\<close> with a status and a message.
\<close>

datatype response = ResponseID string | ResponsePoints int | HttpError nat string

definition getPointsHandler :: "string \<Rightarrow> store \<Rightarrow> response" where
  "getPointsHandler path st =
     (let ident = extractUUID path
      in case points st ident of
           None \<Rightarrow> HttpError 404 ''No receipt found for that ID.''
         | Some p \<Rightarrow> ResponsePoints (sint p))"

text \<open>
  \<open>decoded\<close> is the result of the JSON decoder (\<open>None\<close> when it fails) and \<open>uuid\<close> the
  string that \<open>uuid.New().String()\<close> returns in this call. The result is the response and
  the maps after the call.
\<close>

definition processReceiptHandler ::
  "(f64 \<Rightarrow> gint) \<Rightarrow> string \<Rightarrow> Receipt option \<Rightarrow> store \<Rightarrow> panic + response \<times> store" where
  "processReceiptHandler impl uuid decoded st =
     (case decoded of
        None \<Rightarrow> Inr (HttpError 400 ''The receipt is invalid.'', st)
      | Some receipt \<Rightarrow>
          (case validateReceipt receipt of
             Some err \<Rightarrow> Inr (HttpError 400 err, st)
           | None \<Rightarrow>
               (let ident = uuid
                in case calculatePoints impl receipt of
                     Inl e \<Rightarrow> Inl e
                   | Inr p \<Rightarrow>
                       (let st1 = st\<lparr>points := (points st)(ident \<mapsto> p)\<rparr>;
                            st2 = st1\<lparr>receipts := (receipts st1)(ident \<mapsto> receipt)\<rparr>
                        in Inr (ResponseID ident, st2)))))"

text \<open>
  The textual form of a version-4 identifier: 36 bytes, hyphens at 8, 13, 18 and 23,
  lower-case hexadecimal digits elsewhere.
\<close>

definition is_hex :: "char \<Rightarrow> bool" where
  "is_hex c = (in_range (CHR ''0'') (CHR ''9'') c \<or> in_range (CHR ''a'') (CHR ''f'') c)"

fun uuid_shape :: "nat \<Rightarrow> string \<Rightarrow> bool" where
  "uuid_shape i [] = (i = 36)"
| "uuid_shape i (c # cs) =
     ((if i = 8 \<or> i = 13 \<or> i = 18 \<or> i = 23 then c = CHR ''-'' else is_hex c) \<and>
      uuid_shape (Suc i) cs)"

definition is_uuid_string :: "string \<Rightarrow> bool" where
  "is_uuid_string s = uuid_shape 0 s"

subsection \<open>The handlers as concurrent threads\<close>

text \<open>
  Each request runs in its own goroutine. A thread is at a line of its handler: an
  insert past validation at lines 170-175 of \<open>processReceiptHandler\<close>, a lookup at lines
  144-148 of \<open>getPointsHandler\<close>. A step runs the line of one thread; \<open>Lock\<close> can be run
  only when the mutex is free.
\<close>

datatype thread =
    Insert_170 Receipt
  | Insert_171 Receipt string
  | Insert_172 Receipt string
  | Insert_173 Receipt string
  | Insert_174 Receipt string
  | Insert_175 string
  | Insert_panic panic
  | Lookup_144 string
  | Lookup_145 string
  | Lookup_146 string "gint option"
  | Lookup_148 "gint option"

record config =
  maps :: store
  locked :: bool
  threads :: "thread list"

inductive thread_step ::
  "(f64 \<Rightarrow> gint) \<Rightarrow> store \<times> bool \<times> thread \<Rightarrow> store \<times> bool \<times> thread \<Rightarrow> bool"
  for impl :: "f64 \<Rightarrow> gint" where
  line_170: "is_uuid_string ident \<Longrightarrow>
     thread_step impl (st, l, Insert_170 r) (st, l, Insert_171 r ident)"
| line_171: "calculatePoints impl r = Inr p \<Longrightarrow>
     thread_step impl (st, l, Insert_171 r ident)
       (st\<lparr>points := (points st)(ident \<mapsto> p)\<rparr>, l, Insert_172 r ident)"
| line_171_panic: "calculatePoints impl r = Inl e \<Longrightarrow>
     thread_step impl (st, l, Insert_171 r ident) (st, l, Insert_panic e)"
| line_172: "thread_step impl (st, False, Insert_172 r ident) (st, True, Insert_173 r ident)"
| line_173: "thread_step impl (st, l, Insert_173 r ident)
       (st\<lparr>receipts := (receipts st)(ident \<mapsto> r)\<rparr>, l, Insert_174 r ident)"
| line_174: "thread_step impl (st, l, Insert_174 r ident) (st, False, Insert_175 ident)"
| line_144: "thread_step impl (st, False, Lookup_144 ident) (st, True, Lookup_145 ident)"
| line_145: "thread_step impl (st, l, Lookup_145 ident) (st, l, Lookup_146 ident (points st ident))"
| line_146: "thread_step impl (st, l, Lookup_146 ident p) (st, False, Lookup_148 p)"

inductive step :: "(f64 \<Rightarrow> gint) \<Rightarrow> config \<Rightarrow> config \<Rightarrow> bool"
  for impl :: "f64 \<Rightarrow> gint" where
  "i < length (threads c) \<Longrightarrow>
   thread_step impl (maps c, locked c, threads c ! i) (st', l', t') \<Longrightarrow>
   step impl c \<lparr>maps = st', locked = l', threads = (threads c)[i := t']\<rparr>"

text \<open>The configurations a run can reach from \<open>c0\<close>.\<close>

inductive reachable :: "(f64 \<Rightarrow> gint) \<Rightarrow> config \<Rightarrow> config \<Rightarrow> bool"
  for impl :: "f64 \<Rightarrow> gint" and c0 :: config where
  start: "reachable impl c0 c0"
| next_step: "reachable impl c0 c \<Longrightarrow> step impl c c' \<Longrightarrow> reachable impl c0 c'"

section \<open>The rules of the scorer, one by one\<close>

text \<open>
  What each rule of \<open>calculatePoints\<close> adds, as a function of the fields it reads.
  \<open>calculatePoints_sum\<close> below shows that the source, which threads one running total
  through all of them, returns their sum.
\<close>

definition retailer_points :: "Receipt \<Rightarrow> gint" where
  "retailer_points r = of_nat (length (ReplaceAllString_not cls_alnum (Retailer r)))"

definition round_dollar_points :: "string \<Rightarrow> gint" where
  "round_dollar_points t = (if f64_is_zero (Mod (fst (ParseFloat t)) c_1) then 50 else 0)"

definition quarter_points :: "string \<Rightarrow> gint" where
  "quarter_points t = (if f64_is_zero (Mod (fst (ParseFloat t)) c_0_25) then 25 else 0)"

definition pair_points :: "Receipt \<Rightarrow> gint" where
  "pair_points r = of_nat (length (Items r) div 2) * 5"

definition price_points :: "(f64 \<Rightarrow> gint) \<Rightarrow> string \<Rightarrow> gint" where
  "price_points impl p = f64_to_int impl (Ceil (f64_mul (fst (ParseFloat p)) c_0_2))"

definition item_points :: "(f64 \<Rightarrow> gint) \<Rightarrow> Item \<Rightarrow> gint" where
  "item_points impl item =
     (if length (TrimSpace (ShortDescription item)) mod 3 = 0
      then price_points impl (Price item) else 0)"

definition day_points :: "string \<Rightarrow> gint" where
  "day_points d =
     (case Split d (CHR ''-'') of
        [y, m, day] \<Rightarrow> if go_rem (fst (Atoi day)) 2 \<noteq> 0 then 6 else 0
      | _ \<Rightarrow> 0)"

definition time_points :: "string \<Rightarrow> gint" where
  "time_points t =
     (case Split t (CHR '':'') of
        [h, m] \<Rightarrow>
          if 840 \<le> sint (timeVal (fst (Atoi h)) (fst (Atoi m))) \<and>
             sint (timeVal (fst (Atoi h)) (fst (Atoi m))) < 960 then 10 else 0
      | _ \<Rightarrow> 0)"

text \<open>The two numbers that line 83 combines, and the score without the afternoon rule.\<close>

definition hour_of :: "string \<Rightarrow> int" where
  "hour_of t = fst (Atoi (Split t (CHR '':'') ! 0))"

definition minute_of :: "string \<Rightarrow> int" where
  "minute_of t = fst (Atoi (Split t (CHR '':'') ! 1))"

definition points_without_time :: "(f64 \<Rightarrow> gint) \<Rightarrow> Receipt \<Rightarrow> gint" where
  "points_without_time impl r =
     retailer_points r + round_dollar_points (Total r) + quarter_points (Total r) +
     pair_points r + sum_list (map (item_points impl) (Items r)) + day_points (PurchaseDate r)"

text \<open>The score without the rule on the descriptions.\<close>

definition points_without_items :: "Receipt \<Rightarrow> gint" where
  "points_without_items r =
     retailer_points r + round_dollar_points (Total r) + quarter_points (Total r) +
     pair_points r + day_points (PurchaseDate r) + time_points (PurchaseTime r)"

section \<open>Evaluation\<close>

text \<open>Rule sets that evaluate the library functions on strings and numbers that are given.\<close>

lemmas chr_simps = is_digit_def in_range_def byte_def digit_val_def lower_def ascii_space_def

lemmas flt_simps = f64_round_def floor_log2_def bitlen.simps round_half_even_def
  f64_of_scaled_def f64_trunc_def c_1_def c_0_25_def

lemmas trim_simps = TrimSpace_def TrimLeft.simps TrimRightRev.simps

lemmas parse_simps = ParseFloat_def special_def readFloat_def hex_prefix_def mstate0_def
  read_exponent_def underscoreOK_def

lemma c_0_2_value: "c_0_2 = Fin 7205759403792794 (- 55)"
  by (simp add: c_0_2_def flt_simps)

lemma ParseFloat_12_25: "ParseFloat ''12.25'' = (Fin 6896136929411072 (- 49), None)"
  apply (simp add: parse_simps chr_simps)
  apply (simp add: flt_simps)
  done

lemma ParseFloat_12_00: "ParseFloat ''12.00'' = (Fin 6755399441055744 (- 49), None)"
  apply (simp add: parse_simps chr_simps)
  apply (simp add: flt_simps)
  done

lemma ParseFloat_35_35: "ParseFloat ''35.35'' = (Fin 4975070213360845 (- 47), None)"
  apply (simp add: parse_simps chr_simps)
  apply (simp add: flt_simps)
  done

section \<open>The score is the sum of the rules\<close>

lemma items_loop_sum:
  "items_loop impl items pts = pts + sum_list (map (item_points impl) items)"
  by (induction items arbitrary: pts) (simp_all add: item_points_def price_points_def Let_def)

lemma day_rule_points: "day_rule d pts = Inr (pts + day_points d)"
  by (simp add: day_rule_def day_points_def index_def Let_def split: list.splits)

lemma time_rule_points: "time_rule t pts = Inr (pts + time_points t)"
  by (simp add: time_rule_def time_points_def index_def Let_def split: list.splits)

lemma calculatePoints_sum:
  "calculatePoints impl r =
     Inr (retailer_points r + round_dollar_points (Total r) + quarter_points (Total r) +
          pair_points r + sum_list (map (item_points impl) (Items r)) +
          day_points (PurchaseDate r) + time_points (PurchaseTime r))"
  by (simp add: calculatePoints_def retailer_points_def round_dollar_points_def
      quarter_points_def pair_points_def items_loop_sum day_rule_points time_rule_points Let_def)

section \<open>The worked example\<close>

definition target_receipt :: Receipt where
  "target_receipt =
     \<lparr>Retailer = ''Target'', PurchaseDate = ''2022-01-01'', PurchaseTime = ''13:01'',
      Items = [\<lparr>ShortDescription = ''Mountain Dew 12PK'', Price = ''6.49''\<rparr>,
               \<lparr>ShortDescription = ''Emils Cheese Pizza'', Price = ''12.25''\<rparr>,
               \<lparr>ShortDescription = ''Knorr Creamy Chicken'', Price = ''1.26''\<rparr>,
               \<lparr>ShortDescription = ''Doritos Nacho Cheese'', Price = ''3.35''\<rparr>,
               \<lparr>ShortDescription = ''   Klarbrunn 12-PK 12 FL OZ  '', Price = ''12.00''\<rparr>],
      Total = ''35.35''\<rparr>"

lemma target_retailer:
  "length (ReplaceAllString_not cls_alnum (Retailer target_receipt)) = 6"
  by (simp add: target_receipt_def ReplaceAllString_not_def cls_alnum_def chr_simps)

lemma target_total:
  "f64_is_zero (Mod (fst (ParseFloat (Total target_receipt))) c_1) = False"
  "f64_is_zero (Mod (fst (ParseFloat (Total target_receipt))) c_0_25) = False"
  by (simp_all add: target_receipt_def ParseFloat_35_35 flt_simps)

lemma target_items: "items_loop impl (Items target_receipt) pts = pts + 6"
  apply (simp add: target_receipt_def trim_simps chr_simps ParseFloat_12_25 ParseFloat_12_00
      c_0_2_value)
  apply (simp add: flt_simps)
  done

lemma target_day: "day_rule (PurchaseDate target_receipt) pts = Inr (pts + 6)"
  by (simp add: target_receipt_def day_rule_def index_def Atoi_def chr_simps go_rem_def)

lemma target_time: "time_rule (PurchaseTime target_receipt) pts = Inr pts"
  by (simp add: target_receipt_def time_rule_def index_def Atoi_def chr_simps timeVal_def)

lemma target_count: "length (Items target_receipt) = 5"
  by (simp add: target_receipt_def)

lemma target_score: "calculatePoints impl target_receipt = Inr 28"
  by (simp add: calculatePoints_def target_retailer target_total target_count target_items
      target_day target_time)

text \<open>
  C1. For the receipt of the example (retailer "Target", total "35.35", bought on
  2022-01-01 at 13:01, the five items listed) \<open>calculatePoints\<close> returns 28: 6 for the
  retailer's name, nothing for the total, 10 for the two pairs of items, 3 and 3 for
  the two descriptions whose trimmed length is a multiple of 3, 6 for the odd day,
  nothing for the time. This holds whatever the platform does on conversions out of
  range (none occurs).
\<close>

theorem C1_example_scores_28: "calculatePoints impl target_receipt = Inr 28"
  by (rule target_score)

lemma target_points_without_time: "points_without_time impl target_receipt = 28"
proof -
  have "calculatePoints impl target_receipt =
          Inr (points_without_time impl target_receipt + time_points (PurchaseTime target_receipt))"
    by (simp add: calculatePoints_sum points_without_time_def)
  moreover have "time_points (PurchaseTime target_receipt) = 0"
    using time_rule_points [of "PurchaseTime target_receipt" 0] by (simp add: target_time)
  moreover have "calculatePoints impl target_receipt = Inr 28"
    by (rule target_score)
  ultimately show ?thesis by simp
qed

section \<open>The rules on the total\<close>

lemma ParseFloat_100_00: "ParseFloat ''100.00'' = (Fin 7036874417766400 (- 46), None)"
  apply (simp add: parse_simps chr_simps)
  apply (simp add: flt_simps)
  done

lemma total_100_00: "round_dollar_points ''100.00'' = 50" "quarter_points ''100.00'' = 25"
  by (simp_all add: round_dollar_points_def quarter_points_def ParseFloat_100_00 flt_simps)

lemma total_12_25: "round_dollar_points ''12.25'' = 0" "quarter_points ''12.25'' = 25"
  by (simp_all add: round_dollar_points_def quarter_points_def ParseFloat_12_25 flt_simps)

lemma total_35_35: "round_dollar_points ''35.35'' = 0" "quarter_points ''35.35'' = 0"
  by (simp_all add: round_dollar_points_def quarter_points_def ParseFloat_35_35 flt_simps)

text \<open>
  C7. The round-dollar rule and the quarter rule are two separate terms of the score,
  each a function of the total alone, and both can fire: for the total "100.00" they
  add 50 and 25. So a receipt scores 75 more with the total "100.00" than with "35.35"
  (where neither fires), and 25 more with "12.25" (where only the quarter rule fires).
\<close>

theorem C7_round_and_quarter_both_fire:
  "calculatePoints impl r =
     Inr (round_dollar_points (Total r) + quarter_points (Total r) +
          (retailer_points r + pair_points r + sum_list (map (item_points impl) (Items r)) +
           day_points (PurchaseDate r) + time_points (PurchaseTime r)))
   \<and> round_dollar_points ''100.00'' = 50 \<and> quarter_points ''100.00'' = 25
   \<and> round_dollar_points ''12.25'' = 0 \<and> quarter_points ''12.25'' = 25
   \<and> (\<exists>p. calculatePoints impl (r\<lparr>Total := ''35.35''\<rparr>) = Inr p \<and>
            calculatePoints impl (r\<lparr>Total := ''12.25''\<rparr>) = Inr (p + 25) \<and>
            calculatePoints impl (r\<lparr>Total := ''100.00''\<rparr>) = Inr (p + 75))"
  by (simp add: calculatePoints_sum total_100_00 total_12_25 total_35_35
      retailer_points_def pair_points_def)

section \<open>The afternoon rule\<close>

lemma time_14_00: "time_points ''14:00'' = 10"
  by (simp add: time_points_def Atoi_def chr_simps timeVal_def)

lemma time_15_59: "time_points ''15:59'' = 10"
  by (simp add: time_points_def Atoi_def chr_simps timeVal_def)

lemma time_13_59: "time_points ''13:59'' = 0"
  by (simp add: time_points_def Atoi_def chr_simps timeVal_def)

lemma time_16_00: "time_points ''16:00'' = 0"
  by (simp add: time_points_def Atoi_def chr_simps timeVal_def)

lemma sint_word_of_int_64: "sint (word_of_int k :: gint) = signed_take_bit 63 k"
  by (simp add: sint_sbintrunc')

lemma sint_timeVal:
  assumes lo: "- (2 ^ 63) \<le> hour * 60 + minute" and hi: "hour * 60 + minute < 2 ^ 63"
  shows "sint (timeVal hour minute) = hour * 60 + minute"
proof -
  have e: "timeVal hour minute = word_of_int (hour * 60 + minute)"
    by (simp add: timeVal_def wi_hom_syms)
  have "sint (timeVal hour minute) = signed_take_bit 63 (hour * 60 + minute)"
    unfolding e by (rule sint_word_of_int_64)
  also have "\<dots> = hour * 60 + minute"
    using lo hi by (simp add: signed_take_bit_int_eq_self)
  finally show ?thesis .
qed

lemma calculatePoints_time:
  "calculatePoints impl r = Inr (points_without_time impl r + time_points (PurchaseTime r))"
  by (simp add: calculatePoints_sum points_without_time_def)

lemma points_without_time_update:
  "points_without_time impl (r\<lparr>PurchaseTime := t\<rparr>) = points_without_time impl r"
  by (simp add: points_without_time_def retailer_points_def pair_points_def)

lemma time_points_two_parts:
  "length (Split t (CHR '':'')) = 2 \<Longrightarrow>
   time_points t =
     (if 840 \<le> sint (timeVal (hour_of t) (minute_of t)) \<and>
         sint (timeVal (hour_of t) (minute_of t)) < 960 then 10 else 0)"
  by (auto simp: time_points_def hour_of_def minute_of_def split: list.splits)

lemma digit_not_punct:
  "is_digit c \<Longrightarrow> c \<noteq> CHR '':'' \<and> c \<noteq> CHR ''-'' \<and> c \<noteq> CHR ''+'' \<and> c \<noteq> CHR ''.''"
  by (auto simp: chr_simps)

text \<open>A time that \<open>validateReceipt\<close> lets through is \<open>H:MM\<close> or \<open>HH:MM\<close>.\<close>

lemma Parse_time_shape:
  assumes "Parse_time t = Some (h, m)"
  shows "(\<exists>a c d. t = [a, CHR '':'', c, d] \<and> is_digit a \<and> is_digit c \<and> is_digit d \<and>
            h = digit_val a \<and> m = digit_val c * 10 + digit_val d) \<or>
         (\<exists>a b c d. t = [a, b, CHR '':'', c, d] \<and> is_digit a \<and> is_digit b \<and> is_digit c \<and>
            is_digit d \<and> h = digit_val a * 10 + digit_val b \<and> m = digit_val c * 10 + digit_val d)"
  using assms
  by (auto simp: Parse_time_def getnum_def skip_def split: list.splits if_splits option.splits)

lemma Parse_time_fields:
  assumes "Parse_time t = Some (h, m)"
  shows "length (Split t (CHR '':'')) = 2 \<and> hour_of t = int h \<and> minute_of t = int m"
  using Parse_time_shape [OF assms]
  by (auto simp: hour_of_def minute_of_def Atoi_def digit_not_punct)

lemma Parse_time_bounds: "Parse_time t = Some (h, m) \<Longrightarrow> h < 24 \<and> m < 60"
  by (auto simp: Parse_time_def split: option.splits if_splits)

lemma Parse_time_points:
  assumes "Parse_time t = Some (h, m)"
  shows "time_points t = (if 840 \<le> h * 60 + m \<and> h * 60 + m < 960 then 10 else 0)"
proof -
  from Parse_time_fields [OF assms] have two: "length (Split t (CHR '':'')) = 2"
    and hm: "hour_of t = int h" "minute_of t = int m" by simp_all
  from Parse_time_bounds [OF assms] have "h < 24" "m < 60" by simp_all
  then have "sint (timeVal (int h) (int m)) = int h * 60 + int m"
    by (intro sint_timeVal) simp_all
  then show ?thesis
    by (simp add: time_points_two_parts [OF two] hm)
qed

text \<open>
  C6. For a receipt whose purchaseTime splits on ":" into exactly two parts, with
  \<open>hour\<close> and \<open>minute\<close> the numbers \<open>Atoi\<close> gives for them, the scorer adds 10 exactly when
  \<open>hour*60 + minute\<close>, computed in Go's \<open>int\<close>, is at least 840 and below 960. Where the
  sum does not leave the range of \<open>int\<close>, it is the sum of the integers; for a time that
  the validator lets through it is the minutes since midnight. With "14:00" and "15:59"
  the score is 10 more than without the rule, with "13:59" and "16:00" it is the same.
\<close>

theorem C6_afternoon_window:
  "length (Split (PurchaseTime r) (CHR '':'')) = 2 \<Longrightarrow>
   calculatePoints impl r =
     Inr (points_without_time impl r +
          (if 840 \<le> sint (timeVal (hour_of (PurchaseTime r)) (minute_of (PurchaseTime r))) \<and>
              sint (timeVal (hour_of (PurchaseTime r)) (minute_of (PurchaseTime r))) < 960
           then 10 else 0))
   \<and> (- (2 ^ 63) \<le> hour_of (PurchaseTime r) * 60 + minute_of (PurchaseTime r) \<and>
        hour_of (PurchaseTime r) * 60 + minute_of (PurchaseTime r) < 2 ^ 63 \<longrightarrow>
        sint (timeVal (hour_of (PurchaseTime r)) (minute_of (PurchaseTime r))) =
          hour_of (PurchaseTime r) * 60 + minute_of (PurchaseTime r))
   \<and> (\<forall>h m. Parse_time (PurchaseTime r) = Some (h, m) \<longrightarrow>
          calculatePoints impl r =
            Inr (points_without_time impl r +
                 (if 840 \<le> h * 60 + m \<and> h * 60 + m < 960 then 10 else 0)))
   \<and> calculatePoints impl (r\<lparr>PurchaseTime := ''14:00''\<rparr>) = Inr (points_without_time impl r + 10)
   \<and> calculatePoints impl (r\<lparr>PurchaseTime := ''15:59''\<rparr>) = Inr (points_without_time impl r + 10)
   \<and> calculatePoints impl (r\<lparr>PurchaseTime := ''13:59''\<rparr>) = Inr (points_without_time impl r)
   \<and> calculatePoints impl (r\<lparr>PurchaseTime := ''16:00''\<rparr>) = Inr (points_without_time impl r)"
proof -
  let ?t = "PurchaseTime r"
  assume two: "length (Split ?t (CHR '':'')) = 2"
  have a: "calculatePoints impl r =
     Inr (points_without_time impl r +
          (if 840 \<le> sint (timeVal (hour_of ?t) (minute_of ?t)) \<and>
              sint (timeVal (hour_of ?t) (minute_of ?t)) < 960 then 10 else 0))"
    by (simp only: calculatePoints_time time_points_two_parts [OF two])
  have b: "- (2 ^ 63) \<le> hour_of ?t * 60 + minute_of ?t \<and>
        hour_of ?t * 60 + minute_of ?t < 2 ^ 63 \<longrightarrow>
        sint (timeVal (hour_of ?t) (minute_of ?t)) = hour_of ?t * 60 + minute_of ?t"
    using sint_timeVal by blast
  have c: "\<forall>h m. Parse_time ?t = Some (h, m) \<longrightarrow>
          calculatePoints impl r =
            Inr (points_without_time impl r +
                 (if 840 \<le> h * 60 + m \<and> h * 60 + m < 960 then 10 else 0))"
  proof (intro allI impI)
    fix h m
    assume "Parse_time ?t = Some (h, m)"
    from Parse_time_points [OF this] show "calculatePoints impl r =
            Inr (points_without_time impl r +
                 (if 840 \<le> h * 60 + m \<and> h * 60 + m < 960 then 10 else 0))"
      by (simp only: calculatePoints_time)
  qed
  have d: "calculatePoints impl (r\<lparr>PurchaseTime := ''14:00''\<rparr>) = Inr (points_without_time impl r + 10)"
    "calculatePoints impl (r\<lparr>PurchaseTime := ''15:59''\<rparr>) = Inr (points_without_time impl r + 10)"
    "calculatePoints impl (r\<lparr>PurchaseTime := ''13:59''\<rparr>) = Inr (points_without_time impl r)"
    "calculatePoints impl (r\<lparr>PurchaseTime := ''16:00''\<rparr>) = Inr (points_without_time impl r)"
    by (simp_all add: calculatePoints_time points_without_time_update
        time_14_00 time_15_59 time_13_59 time_16_00)
  from a b c d show ?thesis by blast
qed

theorem C6_afternoon_window_witness:
  "length (Split (PurchaseTime (target_receipt\<lparr>PurchaseTime := ''14:30''\<rparr>)) (CHR '':'')) = 2 \<and>
   Parse_time ''14:30'' = Some (14, 30) \<and>
   hour_of ''14:30'' = 14 \<and> minute_of ''14:30'' = 30 \<and>
   calculatePoints (\<lambda>x. 0) (target_receipt\<lparr>PurchaseTime := ''14:30''\<rparr>) = Inr 38"
proof -
  have two: "length (Split (PurchaseTime (target_receipt\<lparr>PurchaseTime := ''14:30''\<rparr>)) (CHR '':'')) = 2"
    by simp
  have p: "Parse_time ''14:30'' = Some (14, 30)"
    by (simp add: Parse_time_def getnum_def skip_def chr_simps)
  have hm: "hour_of ''14:30'' = 14" "minute_of ''14:30'' = 30"
    by (simp_all add: hour_of_def minute_of_def Atoi_def chr_simps)
  have w: "points_without_time (\<lambda>x. 0) (target_receipt\<lparr>PurchaseTime := ''14:30''\<rparr>) = 28"
    using target_points_without_time [of "\<lambda>x. 0"] by (simp add: points_without_time_update)
  have tv: "sint (timeVal 14 30) = 870"
    by (simp add: timeVal_def)
  from C6_afternoon_window [OF two, of "\<lambda>x. 0"] w
  have "calculatePoints (\<lambda>x. 0) (target_receipt\<lparr>PurchaseTime := ''14:30''\<rparr>) = Inr 38"
    by (simp add: hm tv)
  with two p hm show ?thesis by simp
qed

section \<open>The rule on the descriptions\<close>

definition blank_item :: Item where
  "blank_item = \<lparr>ShortDescription = ''   '', Price = ''12.00''\<rparr>"

lemma blank_item_points: "item_points impl blank_item = 3"
  apply (simp add: blank_item_def item_points_def price_points_def trim_simps chr_simps ParseFloat_12_00
      c_0_2_value)
  apply (simp add: flt_simps)
  done

text \<open>
  C4. The score is the score of the other rules plus, for every item, what the item
  adds: \<open>int(math.Ceil(price * 0.2))\<close>, with \<open>price\<close> the float64 that \<open>ParseFloat\<close> gives
  for the item's price, exactly when the length of the description after \<open>TrimSpace\<close>
  is 0 modulo 3, and nothing otherwise. A description that trims to the empty string
  has length 0 and earns it too. The loop adds this item by item.
\<close>

theorem C4_description_multiple_of_3:
  "calculatePoints impl r =
     Inr (points_without_items r + sum_list (map (item_points impl) (Items r)))
   \<and> items_loop impl (item # rest) pts = items_loop impl rest (pts + item_points impl item)
   \<and> item_points impl item =
       (if length (TrimSpace (ShortDescription item)) mod 3 = 0
        then f64_to_int impl (Ceil (f64_mul (fst (ParseFloat (Price item))) c_0_2)) else 0)
   \<and> (TrimSpace (ShortDescription item) = [] \<longrightarrow>
        item_points impl item =
          f64_to_int impl (Ceil (f64_mul (fst (ParseFloat (Price item))) c_0_2)))"
  by (simp add: calculatePoints_sum points_without_items_def items_loop_sum item_points_def
      price_points_def)

theorem C4_description_multiple_of_3_witness:
  "TrimSpace (ShortDescription blank_item) = [] \<and>
   item_points (\<lambda>x. 0) blank_item =
     f64_to_int (\<lambda>x. 0) (Ceil (f64_mul (fst (ParseFloat (Price blank_item))) c_0_2)) \<and>
   item_points (\<lambda>x. 0) blank_item = 3"
proof -
  have t: "TrimSpace (ShortDescription blank_item) = []"
    by (simp add: blank_item_def trim_simps chr_simps)
  note inst = C4_description_multiple_of_3 [of "\<lambda>x. 0" target_receipt blank_item "[]" 0]
  from inst have "TrimSpace (ShortDescription blank_item) = [] \<longrightarrow>
      item_points (\<lambda>x. 0) blank_item =
        f64_to_int (\<lambda>x. 0) (Ceil (f64_mul (fst (ParseFloat (Price blank_item))) c_0_2))"
    by (elim conjE)
  with t blank_item_points [of "\<lambda>x. 0"] show ?thesis
    by blast
qed

section \<open>Numbers that do not parse\<close>

lemma atof64_not_syntax: "snd (atof64 r) \<noteq> Some ErrSyntax"
  by (cases r) (simp add: Let_def)

lemma ParseFloat_syntax_zero:
  "snd (ParseFloat s) = Some ErrSyntax \<Longrightarrow> fst (ParseFloat s) = Fin 0 0"
  by (auto simp: ParseFloat_def atof64_not_syntax split: option.splits if_splits)

lemma price_points_zero: "fst (ParseFloat p) = Fin 0 0 \<Longrightarrow> price_points impl p = 0"
  by (simp add: price_points_def c_0_2_value flt_simps)

lemma total_zero:
  "fst (ParseFloat t) = Fin 0 0 \<Longrightarrow> round_dollar_points t = 50 \<and> quarter_points t = 25"
  by (simp add: round_dollar_points_def quarter_points_def flt_simps)

lemma ParseUint_loop_syntax:
  "snd (ParseUint_loop s n) = Some ErrSyntax \<Longrightarrow> fst (ParseUint_loop s n) = 0"
  by (induction s arbitrary: n) (auto split: if_splits)

lemma ParseInt_syntax_zero: "snd (ParseInt s) = Some ErrSyntax \<Longrightarrow> fst (ParseInt s) = 0"
  by (auto simp: ParseInt_def Let_def split: list.splits prod.splits if_splits)

lemma Atoi_syntax_zero: "snd (Atoi s) = Some ErrSyntax \<Longrightarrow> fst (Atoi s) = 0"
  by (auto simp: Atoi_def ParseInt_syntax_zero Let_def split: list.splits option.splits if_splits)

lemma day_points_syntax:
  "Split d (CHR ''-'') = [y, m, dd] \<Longrightarrow> snd (Atoi dd) = Some ErrSyntax \<Longrightarrow> day_points d = 0"
  by (simp add: day_points_def Atoi_syntax_zero go_rem_def)

lemma time_points_syntax:
  "Split t (CHR '':'') = [h, m] \<Longrightarrow> snd (Atoi h) = Some ErrSyntax \<Longrightarrow>
   snd (Atoi m) = Some ErrSyntax \<Longrightarrow> time_points t = 0"
  by (simp add: time_points_def Atoi_syntax_zero timeVal_def)

lemma ParseFloat_abc: "ParseFloat ''abc'' = (Fin 0 0, Some ErrSyntax)"
  by (simp add: parse_simps chr_simps)

lemma Atoi_20_nines: "Atoi ''99999999999999999999'' = (9223372036854775807, Some ErrRange)"
  by (simp add: Atoi_def ParseInt_def ParseUint_def maxUint64_def chr_simps)

text \<open>
  C3, as the specification states it, fails: a total that does not parse is read as 0,
  and 0 passes both tests on the total, so it adds 75 points, not none (the example
  receipt scores 103 with the total "abc", 28 with its own); and a day too large for
  \<open>int\<close> fails to parse with a range error, is read as the largest \<open>int\<close>, which is odd,
  and adds 6.
\<close>

theorem C3_counterexample:
  "snd (ParseFloat ''abc'') = Some ErrSyntax \<and>
   round_dollar_points ''abc'' + quarter_points ''abc'' = 75 \<and>
   (\<forall>impl. calculatePoints impl (target_receipt\<lparr>Total := ''abc''\<rparr>) = Inr 103) \<and>
   (\<forall>impl. calculatePoints impl target_receipt = Inr 28) \<and>
   snd (Atoi ''99999999999999999999'') = Some ErrRange \<and>
   day_points ''2022-01-99999999999999999999'' = 6"
proof -
  have a: "round_dollar_points ''abc'' = 50 \<and> quarter_points ''abc'' = 25"
    by (rule total_zero) (simp add: ParseFloat_abc)
  have b: "calculatePoints impl target_receipt = Inr 28" for impl
    by (rule target_score)
  have t: "f64_is_zero (Mod (fst (ParseFloat ''abc'')) c_1)"
    "f64_is_zero (Mod (fst (ParseFloat ''abc'')) c_0_25)"
    by (simp_all add: ParseFloat_abc flt_simps)
  have r: "Retailer (target_receipt\<lparr>Total := ''abc''\<rparr>) = Retailer target_receipt"
    "Items (target_receipt\<lparr>Total := ''abc''\<rparr>) = Items target_receipt"
    "PurchaseDate (target_receipt\<lparr>Total := ''abc''\<rparr>) = PurchaseDate target_receipt"
    "PurchaseTime (target_receipt\<lparr>Total := ''abc''\<rparr>) = PurchaseTime target_receipt"
    "Total (target_receipt\<lparr>Total := ''abc''\<rparr>) = ''abc''"
    by simp_all
  have c: "calculatePoints impl (target_receipt\<lparr>Total := ''abc''\<rparr>) = Inr 103" for impl
    unfolding calculatePoints_def r
    by (simp add: t target_retailer target_count target_items target_day target_time)
  have d: "day_points ''2022-01-99999999999999999999'' = 6"
    by (simp add: day_points_def Atoi_20_nines go_rem_def)
  from a b c d show ?thesis
    by (simp add: ParseFloat_abc Atoi_20_nines)
qed

text \<open>
  C3, amended. \<open>calculatePoints\<close> never faults. A number that fails to parse with a
  syntax error is read as 0 where it is used: such a price adds nothing for its item,
  such a day gives no points for an odd day, such an hour or minute counts as 0 in
  \<open>hour*60 + minute\<close> (and the afternoon rule adds nothing when both fail); such a total
  is 0, passes both tests on the total, and adds 50 and 25.
\<close>

theorem C3_syntax_errors_read_as_zero:
  "(\<exists>p. calculatePoints impl r = Inr p)
   \<and> (snd (ParseFloat (Total r)) = Some ErrSyntax \<longrightarrow>
        fst (ParseFloat (Total r)) = Fin 0 0 \<and>
        round_dollar_points (Total r) = 50 \<and> quarter_points (Total r) = 25)
   \<and> (\<forall>item. snd (ParseFloat (Price item)) = Some ErrSyntax \<longrightarrow>
          fst (ParseFloat (Price item)) = Fin 0 0 \<and> item_points impl item = 0)
   \<and> (\<forall>y m d. Split (PurchaseDate r) (CHR ''-'') = [y, m, d] \<and> snd (Atoi d) = Some ErrSyntax \<longrightarrow>
          fst (Atoi d) = 0 \<and> day_points (PurchaseDate r) = 0)
   \<and> (\<forall>h m. Split (PurchaseTime r) (CHR '':'') = [h, m] \<and> snd (Atoi h) = Some ErrSyntax \<longrightarrow>
          hour_of (PurchaseTime r) = 0)
   \<and> (\<forall>h m. Split (PurchaseTime r) (CHR '':'') = [h, m] \<and> snd (Atoi m) = Some ErrSyntax \<longrightarrow>
          minute_of (PurchaseTime r) = 0)
   \<and> (\<forall>h m. Split (PurchaseTime r) (CHR '':'') = [h, m] \<and> snd (Atoi h) = Some ErrSyntax \<and>
          snd (Atoi m) = Some ErrSyntax \<longrightarrow> time_points (PurchaseTime r) = 0)"
proof -
  have a: "\<exists>p. calculatePoints impl r = Inr p"
    by (simp add: calculatePoints_sum)
  have b: "snd (ParseFloat (Total r)) = Some ErrSyntax \<longrightarrow>
        fst (ParseFloat (Total r)) = Fin 0 0 \<and>
        round_dollar_points (Total r) = 50 \<and> quarter_points (Total r) = 25"
    using ParseFloat_syntax_zero total_zero by blast
  have c: "\<forall>item. snd (ParseFloat (Price item)) = Some ErrSyntax \<longrightarrow>
          fst (ParseFloat (Price item)) = Fin 0 0 \<and> item_points impl item = 0"
    by (simp add: item_points_def ParseFloat_syntax_zero price_points_zero)
  have d: "\<forall>y m d. Split (PurchaseDate r) (CHR ''-'') = [y, m, d] \<and> snd (Atoi d) = Some ErrSyntax \<longrightarrow>
          fst (Atoi d) = 0 \<and> day_points (PurchaseDate r) = 0"
    using Atoi_syntax_zero day_points_syntax by blast
  have e: "\<forall>h m. Split (PurchaseTime r) (CHR '':'') = [h, m] \<and> snd (Atoi h) = Some ErrSyntax \<longrightarrow>
          hour_of (PurchaseTime r) = 0"
    by (simp add: hour_of_def Atoi_syntax_zero)
  have f: "\<forall>h m. Split (PurchaseTime r) (CHR '':'') = [h, m] \<and> snd (Atoi m) = Some ErrSyntax \<longrightarrow>
          minute_of (PurchaseTime r) = 0"
    by (simp add: minute_of_def Atoi_syntax_zero)
  have g: "\<forall>h m. Split (PurchaseTime r) (CHR '':'') = [h, m] \<and> snd (Atoi h) = Some ErrSyntax \<and>
          snd (Atoi m) = Some ErrSyntax \<longrightarrow> time_points (PurchaseTime r) = 0"
    using time_points_syntax by blast
  from a b c d e f g show ?thesis by blast
qed

definition malformed_receipt :: Receipt where
  "malformed_receipt =
     \<lparr>Retailer = ''Target'', PurchaseDate = ''2022-01-xx'', PurchaseTime = ''aa:bb'',
      Items = [\<lparr>ShortDescription = ''Gum'', Price = ''free''\<rparr>], Total = ''abc''\<rparr>"

theorem C3_syntax_errors_read_as_zero_witness:
  "snd (ParseFloat (Total malformed_receipt)) = Some ErrSyntax \<and>
   round_dollar_points (Total malformed_receipt) = 50 \<and>
   quarter_points (Total malformed_receipt) = 25 \<and>
   snd (ParseFloat (Price \<lparr>ShortDescription = ''Gum'', Price = ''free''\<rparr>)) = Some ErrSyntax \<and>
   item_points (\<lambda>x. 0) \<lparr>ShortDescription = ''Gum'', Price = ''free''\<rparr> = 0 \<and>
   Split (PurchaseDate malformed_receipt) (CHR ''-'') = [''2022'', ''01'', ''xx''] \<and>
   snd (Atoi ''xx'') = Some ErrSyntax \<and>
   day_points (PurchaseDate malformed_receipt) = 0 \<and>
   Split (PurchaseTime malformed_receipt) (CHR '':'') = [''aa'', ''bb''] \<and>
   snd (Atoi ''aa'') = Some ErrSyntax \<and> snd (Atoi ''bb'') = Some ErrSyntax \<and>
   hour_of (PurchaseTime malformed_receipt) = 0 \<and>
   minute_of (PurchaseTime malformed_receipt) = 0 \<and>
   time_points (PurchaseTime malformed_receipt) = 0 \<and>
   (\<exists>p. calculatePoints (\<lambda>x. 0) malformed_receipt = Inr p)"
proof -
  have t: "snd (ParseFloat (Total malformed_receipt)) = Some ErrSyntax"
    by (simp add: malformed_receipt_def ParseFloat_abc)
  have i: "snd (ParseFloat (Price \<lparr>ShortDescription = ''Gum'', Price = ''free''\<rparr>)) = Some ErrSyntax"
    by (simp add: parse_simps chr_simps)
  have d: "Split (PurchaseDate malformed_receipt) (CHR ''-'') = [''2022'', ''01'', ''xx'']"
    by (simp add: malformed_receipt_def)
  have dx: "snd (Atoi ''xx'') = Some ErrSyntax"
    by (simp add: Atoi_def chr_simps)
  have h: "Split (PurchaseTime malformed_receipt) (CHR '':'') = [''aa'', ''bb'']"
    by (simp add: malformed_receipt_def)
  have hx: "snd (Atoi ''aa'') = Some ErrSyntax" "snd (Atoi ''bb'') = Some ErrSyntax"
    by (simp_all add: Atoi_def chr_simps)
  from C3_syntax_errors_read_as_zero [of "\<lambda>x. 0" malformed_receipt] t i d dx h hx
  show ?thesis by blast
qed

section \<open>What the patterns accept\<close>

text \<open>
  The language of a regular expression, and the proof that \<open>MatchString\<close> decides it.
\<close>

definition conc :: "string set \<Rightarrow> string set \<Rightarrow> string set" where
  "conc A B = {u @ v | u v. u \<in> A \<and> v \<in> B}"

inductive_set star :: "string set \<Rightarrow> string set" for A :: "string set" where
  star_nil: "[] \<in> star A"
| star_app: "u \<in> A \<Longrightarrow> v \<in> star A \<Longrightarrow> u @ v \<in> star A"

fun lang :: "rexp \<Rightarrow> string set" where
  "lang Zero = {}"
| "lang One = {[]}"
| "lang (Cls cs) = {[c] | c. in_class cs c}"
| "lang (Alt r s) = lang r \<union> lang s"
| "lang (Seq r s) = conc (lang r) (lang s)"
| "lang (Star r) = star (lang r)"

lemma nil_in_conc: "[] \<in> conc A B \<longleftrightarrow> [] \<in> A \<and> [] \<in> B"
  by (auto simp: conc_def)

lemma Cons_in_conc:
  "c # w \<in> conc A B \<longleftrightarrow>
     ([] \<in> A \<and> c # w \<in> B) \<or> (\<exists>u v. w = u @ v \<and> c # u \<in> A \<and> v \<in> B)"
proof
  assume "c # w \<in> conc A B"
  then obtain u v where uv: "c # w = u @ v" "u \<in> A" "v \<in> B"
    by (auto simp: conc_def)
  show "([] \<in> A \<and> c # w \<in> B) \<or> (\<exists>u v. w = u @ v \<and> c # u \<in> A \<and> v \<in> B)"
  proof (cases u)
    case Nil
    with uv show ?thesis by simp
  next
    case (Cons a u')
    with uv show ?thesis by auto
  qed
next
  assume "([] \<in> A \<and> c # w \<in> B) \<or> (\<exists>u v. w = u @ v \<and> c # u \<in> A \<and> v \<in> B)"
  then show "c # w \<in> conc A B"
  proof
    assume "[] \<in> A \<and> c # w \<in> B"
    then have "[] @ (c # w) \<in> conc A B"
      unfolding conc_def by blast
    then show ?thesis by simp
  next
    assume "\<exists>u v. w = u @ v \<and> c # u \<in> A \<and> v \<in> B"
    then obtain u v where "w = u @ v" "c # u \<in> A" "v \<in> B" by blast
    then have "(c # u) @ v \<in> conc A B"
      unfolding conc_def by blast
    with \<open>w = u @ v\<close> show ?thesis by simp
  qed
qed

lemma star_Cons_split:
  assumes "x \<in> star A" and "x = c # w"
  shows "\<exists>u v. w = u @ v \<and> c # u \<in> A \<and> v \<in> star A"
  using assms
proof (induction arbitrary: w rule: star.induct)
  case star_nil
  then show ?case by simp
next
  case (star_app u v)
  show ?case
  proof (cases u)
    case Nil
    with star_app show ?thesis by simp
  next
    case (Cons a u')
    with star_app.prems have "a = c" "w = u' @ v" by simp_all
    with Cons star_app.hyps show ?thesis by blast
  qed
qed

lemma Cons_in_star:
  "c # w \<in> star A \<longleftrightarrow> (\<exists>u v. w = u @ v \<and> c # u \<in> A \<and> v \<in> star A)"
proof
  assume "c # w \<in> star A"
  then show "\<exists>u v. w = u @ v \<and> c # u \<in> A \<and> v \<in> star A"
    by (rule star_Cons_split) simp
next
  assume "\<exists>u v. w = u @ v \<and> c # u \<in> A \<and> v \<in> star A"
  then obtain u v where "w = u @ v" "c # u \<in> A" "v \<in> star A" by blast
  then have "(c # u) @ v \<in> star A"
    by (intro star_app)
  with \<open>w = u @ v\<close> show "c # w \<in> star A" by simp
qed

lemma nullable_lang: "nullable r \<longleftrightarrow> [] \<in> lang r"
  by (induction r) (auto simp: nil_in_conc star_nil)

lemma in_conc: "w \<in> conc A B \<longleftrightarrow> (\<exists>u v. w = u @ v \<and> u \<in> A \<and> v \<in> B)"
  by (auto simp: conc_def)

lemma deriv_lang: "w \<in> lang (deriv c r) \<longleftrightarrow> c # w \<in> lang r"
proof (induction r arbitrary: w)
  case (Seq r s)
  have "w \<in> conc (lang (deriv c r)) (lang s) \<longleftrightarrow>
          (\<exists>u v. w = u @ v \<and> c # u \<in> lang r \<and> v \<in> lang s)"
    by (simp add: in_conc Seq.IH(1))
  then show ?case
    by (auto simp: Cons_in_conc nullable_lang Seq.IH(2))
next
  case (Star r)
  have "w \<in> conc (lang (deriv c r)) (star (lang r)) \<longleftrightarrow>
          (\<exists>u v. w = u @ v \<and> c # u \<in> lang r \<and> v \<in> star (lang r))"
    by (simp add: in_conc Star.IH)
  then show ?case
    by (simp add: Cons_in_star)
qed auto

lemma derivs_lang: "w \<in> lang (derivs s r) \<longleftrightarrow> s @ w \<in> lang r"
  by (induction s arbitrary: r) (simp_all add: deriv_lang)

lemma MatchString_lang: "MatchString r s \<longleftrightarrow> s \<in> lang r"
  by (simp add: MatchString_def nullable_lang derivs_lang)

lemma star_class:
  "s \<in> star {[c] | c. P c} \<longleftrightarrow> list_all P s"
proof (induction s)
  case Nil
  show ?case by (simp add: star_nil)
next
  case (Cons a s)
  show ?case
    by (auto simp: Cons_in_star Cons)
qed

lemma MatchString_Plus_Cls:
  "MatchString (Plus (Cls cs)) s \<longleftrightarrow> s \<noteq> [] \<and> list_all (in_class cs) s"
proof (cases s)
  case Nil
  then show ?thesis
    by (simp add: MatchString_lang Plus_def nil_in_conc)
next
  case (Cons a w)
  then show ?thesis
    by (auto simp: MatchString_lang Plus_def Cons_in_conc star_class)
qed

text \<open>
  The total and the prices, in the words of the specification: one or more digits, a
  dot, and exactly two digits.
\<close>

definition two_decimals :: "string \<Rightarrow> bool" where
  "two_decimals s =
     (\<exists>ds a b. s = ds @ [CHR ''.'', a, b] \<and> ds \<noteq> [] \<and> list_all is_digit ds \<and>
        is_digit a \<and> is_digit b)"

lemma in_class_d: "in_class cls_d c \<longleftrightarrow> is_digit c"
  by (simp add: cls_d_def is_digit_def)

lemma in_class_d_eq: "in_class cls_d = is_digit"
  by (rule ext) (simp add: in_class_d)

lemma in_range_single: "in_range c c x \<longleftrightarrow> x = c"
  by (auto simp: in_range_def byte_def)

lemma lang_Cls_Seq:
  "w \<in> lang (Seq (Cls cs) r) \<longleftrightarrow> (\<exists>c v. w = c # v \<and> in_class cs c \<and> v \<in> lang r)"
  by (cases w) (auto simp: nil_in_conc Cons_in_conc)

lemma lang_two_digits_tail:
  "w \<in> lang (Seq (Lit (CHR ''.'')) (Seq (Cls cls_d) (Cls cls_d))) \<longleftrightarrow>
     (\<exists>a b. w = [CHR ''.'', a, b] \<and> is_digit a \<and> is_digit b)"
  unfolding Lit_def lang_Cls_Seq
  by (auto simp: in_class_d in_range_single)

lemma lang_Plus_Cls: "lang (Plus (Cls cs)) = {s. s \<noteq> [] \<and> list_all (in_class cs) s}"
  using MatchString_Plus_Cls [of cs] by (auto simp: MatchString_lang)

lemma MatchString_totalPricePattern:
  "MatchString totalPricePattern s \<longleftrightarrow> two_decimals s"
proof -
  have "s \<in> lang totalPricePattern \<longleftrightarrow>
      (\<exists>ds w. s = ds @ w \<and> ds \<in> lang (Plus (Cls cls_d)) \<and>
         w \<in> lang (Seq (Lit (CHR ''.'')) (Seq (Cls cls_d) (Cls cls_d))))"
    by (simp only: totalPricePattern_def lang.simps in_conc)
  then show ?thesis
    unfolding MatchString_lang two_decimals_def lang_two_digits_tail lang_Plus_Cls
      in_class_d_eq
    by auto
qed

section \<open>The validator on the total and the prices\<close>

lemma validate_items_result: "validate_items items = None \<or> validate_items items = Some invalid"
  by (induction items) auto

lemma validate_items_prices:
  "validate_items items = None \<Longrightarrow> item \<in> set items \<Longrightarrow> two_decimals (Price item)"
  by (induction items) (auto simp: MatchString_totalPricePattern split: if_splits)

lemma validate_items_append:
  "validate_items (xs @ ys) = None \<longleftrightarrow> validate_items xs = None \<and> validate_items ys = None"
  by (induction xs) auto

lemma validateReceipt_result: "validateReceipt r = None \<or> validateReceipt r = Some invalid"
  using validate_items_result [of "Items r"] by (auto simp: validateReceipt_def)

lemma validateReceipt_total: "validateReceipt r = None \<Longrightarrow> two_decimals (Total r)"
  by (auto simp: validateReceipt_def MatchString_totalPricePattern split: if_splits)

lemma validateReceipt_items: "validateReceipt r = None \<Longrightarrow> validate_items (Items r) = None"
  by (auto simp: validateReceipt_def split: if_splits)

lemmas match_simps = MatchString_def totalPricePattern_def retailerPattern_def
  ShortDescriptionPattern_def Plus_def Lit_def cls_d_def cls_w_def cls_s_def

lemma not_two_decimals:
  "\<not> two_decimals ''12.5''" "\<not> two_decimals ''12.500''" "\<not> two_decimals ''-12.50''"
  "\<not> two_decimals ''+12.50''" "\<not> two_decimals ''1.25e1''" "\<not> two_decimals ''.50''"
  "\<not> two_decimals ''12''"
  unfolding MatchString_totalPricePattern [symmetric]
  by (simp_all add: match_simps chr_simps)

lemma two_decimals_12_50: "two_decimals ''12.50''"
  unfolding MatchString_totalPricePattern [symmetric]
  by (simp add: match_simps chr_simps)

lemma target_valid: "validateReceipt target_receipt = None"
  by (simp add: validateReceipt_def target_receipt_def match_simps chr_simps Parse_date_def
      Parse_time_def getnum_def skip_def daysIn_def isLeap_def)

text \<open>
  C8. \<open>validateReceipt\<close> returns either \<open>nil\<close> or the one error "The receipt is
  invalid."; it returns the error for every receipt whose total is not one or more
  digits, a dot and exactly two digits, and for every receipt with an item whose price
  is not of that form. "12.5", "12.500", a signed number and a number with an exponent
  are not of that form.
\<close>

theorem C8_two_decimals_or_rejected:
  "(validateReceipt r = None \<or> validateReceipt r = Some invalid)
   \<and> (\<not> two_decimals (Total r) \<longrightarrow> validateReceipt r = Some invalid)
   \<and> (\<forall>item \<in> set (Items r). \<not> two_decimals (Price item) \<longrightarrow> validateReceipt r = Some invalid)
   \<and> \<not> two_decimals ''12.5'' \<and> \<not> two_decimals ''12.500'' \<and> \<not> two_decimals ''-12.50''
   \<and> \<not> two_decimals ''+12.50'' \<and> \<not> two_decimals ''1.25e1''"
proof -
  have a: "\<not> two_decimals (Total r) \<longrightarrow> validateReceipt r = Some invalid"
    using validateReceipt_result [of r] validateReceipt_total [of r] by blast
  have b: "\<forall>item \<in> set (Items r). \<not> two_decimals (Price item) \<longrightarrow> validateReceipt r = Some invalid"
    using validateReceipt_result [of r] validateReceipt_items [of r] validate_items_prices
    by blast
  from a b validateReceipt_result [of r] not_two_decimals show ?thesis
    by blast
qed

definition bad_price_receipt :: Receipt where
  "bad_price_receipt =
     target_receipt\<lparr>Items := [\<lparr>ShortDescription = ''Gum'', Price = ''12.500''\<rparr>]\<rparr>"

theorem C8_two_decimals_or_rejected_witness:
  "\<not> two_decimals (Total (target_receipt\<lparr>Total := ''12.5''\<rparr>)) \<and>
   validateReceipt (target_receipt\<lparr>Total := ''12.5''\<rparr>) = Some invalid \<and>
   \<lparr>ShortDescription = ''Gum'', Price = ''12.500''\<rparr> \<in> set (Items bad_price_receipt) \<and>
   \<not> two_decimals (Price \<lparr>ShortDescription = ''Gum'', Price = ''12.500''\<rparr>) \<and>
   validateReceipt bad_price_receipt = Some invalid"
proof -
  have a: "\<not> two_decimals (Total (target_receipt\<lparr>Total := ''12.5''\<rparr>))"
    by (simp add: not_two_decimals)
  have b: "\<lparr>ShortDescription = ''Gum'', Price = ''12.500''\<rparr> \<in> set (Items bad_price_receipt)"
    by (simp add: bad_price_receipt_def)
  have c: "\<not> two_decimals (Price \<lparr>ShortDescription = ''Gum'', Price = ''12.500''\<rparr>)"
    by (simp add: not_two_decimals)
  from C8_two_decimals_or_rejected [of "target_receipt\<lparr>Total := ''12.5''\<rparr>"] a
  have d: "validateReceipt (target_receipt\<lparr>Total := ''12.5''\<rparr>) = Some invalid"
    by blast
  from C8_two_decimals_or_rejected [of bad_price_receipt] b c
  have e: "validateReceipt bad_price_receipt = Some invalid"
    by blast
  from a b c d e show ?thesis by blast
qed

section \<open>A description of white space only\<close>

lemma in_class_append: "in_class (a @ b) c \<longleftrightarrow> in_class a c \<or> in_class b c"
  by (induction a) auto

lemma cls_s_ascii_space: "in_class cls_s c \<Longrightarrow> ascii_space c"
  by (auto simp: cls_s_def ascii_space_def in_range_single) (auto simp: in_range_def byte_def)

lemma space_prefix_ascii: "ascii_space c \<Longrightarrow> space_prefix (c # cs) = 1"
  by (cases cs rule: space_prefix.cases) auto

lemma TrimLeft_spaces: "list_all ascii_space d \<Longrightarrow> TrimLeft d = []"
proof (induction d)
  case Nil
  show ?case by (simp add: TrimLeft.simps)
next
  case (Cons c cs)
  then have "space_prefix (c # cs) = 1" by (simp add: space_prefix_ascii)
  then have "TrimLeft (c # cs) = TrimLeft cs"
    by (subst TrimLeft.simps) simp
  with Cons show ?case by simp
qed

lemma TrimSpace_spaces: "list_all (in_class cls_s) d \<Longrightarrow> TrimSpace d = []"
proof -
  assume "list_all (in_class cls_s) d"
  then have "list_all ascii_space d"
    by (induction d) (auto simp: cls_s_ascii_space)
  then have "TrimLeft d = []" by (rule TrimLeft_spaces)
  then show ?thesis
    by (simp add: TrimSpace_def TrimRightRev.simps)
qed

lemma spaces_match_description:
  "d \<noteq> [] \<Longrightarrow> list_all (in_class cls_s) d \<Longrightarrow> MatchString ShortDescriptionPattern d"
proof -
  assume ne: "d \<noteq> []" and sp: "list_all (in_class cls_s) d"
  from sp have "list_all (in_class (cls_w @ cls_s @ [(CHR ''-'', CHR ''-'')])) d"
    by (induction d) (auto simp: in_class_append)
  with ne show ?thesis
    by (simp add: ShortDescriptionPattern_def MatchString_Plus_Cls)
qed
lemma validateReceipt_add_item:
  assumes "validateReceipt r = None" and "d \<noteq> []" and "p \<noteq> []"
    and "MatchString ShortDescriptionPattern d" and "MatchString totalPricePattern p"
  shows "validateReceipt (r\<lparr>Items := Items r @ [\<lparr>ShortDescription = d, Price = p\<rparr>]\<rparr>) = None"
proof -
  have "validate_items (Items r) = None"
    using assms(1) by (rule validateReceipt_items)
  then have "validate_items (Items r @ [\<lparr>ShortDescription = d, Price = p\<rparr>]) = None"
    using assms(2-5) by (simp add: validate_items_append)
  with assms(1) show ?thesis
    by (auto simp: validateReceipt_def split: if_splits)
qed

lemma two_decimals_nonempty: "two_decimals p \<Longrightarrow> p \<noteq> []"
  by (auto simp: two_decimals_def)

definition blank_receipt :: Receipt where
  "blank_receipt = target_receipt\<lparr>Items := Items target_receipt @ [blank_item]\<rparr>"

lemma target_items_sum: "sum_list (map (item_points impl) (Items target_receipt)) = 6"
  using items_loop_sum [of impl "Items target_receipt" 0] by (simp add: target_items)

lemma blank_receipt_score: "calculatePoints impl blank_receipt = Inr 36"
proof -
  have f: "Retailer blank_receipt = Retailer target_receipt"
    "Total blank_receipt = Total target_receipt"
    "PurchaseDate blank_receipt = PurchaseDate target_receipt"
    "PurchaseTime blank_receipt = PurchaseTime target_receipt"
    "Items blank_receipt = Items target_receipt @ [blank_item]"
    by (simp_all add: blank_receipt_def)
  show ?thesis
    unfolding calculatePoints_def f
    by (simp add: target_retailer target_total target_count items_loop_sum target_items_sum
        blank_item_points target_day target_time)
qed

text \<open>
  C10. A description that is not empty and consists of white space only (the bytes of
  \<open>\s\<close>: tab, line feed, form feed, carriage return, space) matches the pattern of line
  130, so a valid receipt stays valid when an item with such a description and a price
  of the two-decimal form is added to it. The description trims to the empty string, of
  length 0, and the scorer adds \<open>int(math.Ceil(price * 0.2))\<close> for the item.
\<close>

theorem C10_blank_description_reachable:
  "validateReceipt r = None \<and> d \<noteq> [] \<and> list_all (in_class cls_s) d \<and> two_decimals p \<longrightarrow>
     validateReceipt (r\<lparr>Items := Items r @ [\<lparr>ShortDescription = d, Price = p\<rparr>]\<rparr>) = None \<and>
     MatchString ShortDescriptionPattern d \<and>
     length (TrimSpace d) = 0 \<and>
     item_points impl \<lparr>ShortDescription = d, Price = p\<rparr> =
       f64_to_int impl (Ceil (f64_mul (fst (ParseFloat p)) c_0_2)) \<and>
     calculatePoints impl (r\<lparr>Items := Items r @ [\<lparr>ShortDescription = d, Price = p\<rparr>]\<rparr>) =
       Inr (points_without_items (r\<lparr>Items := Items r @ [\<lparr>ShortDescription = d, Price = p\<rparr>]\<rparr>) +
            sum_list (map (item_points impl) (Items r)) +
            f64_to_int impl (Ceil (f64_mul (fst (ParseFloat p)) c_0_2)))"
proof (intro impI)
  assume h: "validateReceipt r = None \<and> d \<noteq> [] \<and> list_all (in_class cls_s) d \<and> two_decimals p"
  let ?item = "\<lparr>ShortDescription = d, Price = p\<rparr>"
  from h have m: "MatchString ShortDescriptionPattern d"
    by (simp add: spaces_match_description)
  from h have t: "TrimSpace d = []"
    by (simp add: TrimSpace_spaces)
  from h m have v: "validateReceipt (r\<lparr>Items := Items r @ [?item]\<rparr>) = None"
    by (intro validateReceipt_add_item)
       (simp_all add: two_decimals_nonempty MatchString_totalPricePattern)
  from t have i: "item_points impl ?item =
      f64_to_int impl (Ceil (f64_mul (fst (ParseFloat p)) c_0_2))"
    by (simp add: item_points_def price_points_def)
  have c: "calculatePoints impl (r\<lparr>Items := Items r @ [?item]\<rparr>) =
       Inr (points_without_items (r\<lparr>Items := Items r @ [?item]\<rparr>) +
            sum_list (map (item_points impl) (Items r)) +
            f64_to_int impl (Ceil (f64_mul (fst (ParseFloat p)) c_0_2)))"
    by (simp add: calculatePoints_sum points_without_items_def i)
  from m t v i c show "validateReceipt (r\<lparr>Items := Items r @ [?item]\<rparr>) = None \<and>
     MatchString ShortDescriptionPattern d \<and>
     length (TrimSpace d) = 0 \<and>
     item_points impl ?item = f64_to_int impl (Ceil (f64_mul (fst (ParseFloat p)) c_0_2)) \<and>
     calculatePoints impl (r\<lparr>Items := Items r @ [?item]\<rparr>) =
       Inr (points_without_items (r\<lparr>Items := Items r @ [?item]\<rparr>) +
            sum_list (map (item_points impl) (Items r)) +
            f64_to_int impl (Ceil (f64_mul (fst (ParseFloat p)) c_0_2)))"
    by simp
qed

theorem C10_blank_description_reachable_witness:
  "validateReceipt target_receipt = None \<and> ''   '' \<noteq> [] \<and>
   list_all (in_class cls_s) ''   '' \<and> two_decimals ''12.00'' \<and>
   validateReceipt blank_receipt = None \<and>
   length (TrimSpace ''   '') = 0 \<and>
   item_points (\<lambda>x. 0) blank_item = 3 \<and>
   calculatePoints (\<lambda>x. 0) blank_receipt = Inr 36"
proof -
  have a: "list_all (in_class cls_s) ''   ''"
    by (simp add: cls_s_def chr_simps)
  have b: "two_decimals ''12.00''"
    unfolding MatchString_totalPricePattern [symmetric]
    by (simp add: match_simps chr_simps)
  have c: "''   '' \<noteq> []"
    by simp
  note inst = C10_blank_description_reachable [of target_receipt "''   ''" "''12.00''" "\<lambda>x. 0"]
  from inst target_valid a b c
  have "validateReceipt (target_receipt\<lparr>Items := Items target_receipt @
          [\<lparr>ShortDescription = ''   '', Price = ''12.00''\<rparr>]\<rparr>) = None \<and>
        length (TrimSpace ''   '') = 0"
    by blast
  then have d: "validateReceipt blank_receipt = None \<and> length (TrimSpace ''   '') = 0"
    by (simp only: blank_receipt_def blank_item_def)
  from a b c d target_valid blank_item_points [of "\<lambda>x. 0"] blank_receipt_score [of "\<lambda>x. 0"]
  show ?thesis by blast
qed

section \<open>The validator on the date\<close>

text \<open>
  A calendar date written \<open>YYYY-MM-DD\<close>, in the words of the specification: four digits,
  a hyphen, two digits, a hyphen, two digits, with the month from 1 to 12 and the day
  from 1 to the number of days of that month in that year.
\<close>

definition leap_year :: "nat \<Rightarrow> bool" where
  "leap_year y = (4 dvd y \<and> (\<not> 100 dvd y \<or> 400 dvd y))"

definition days_in_month :: "nat \<Rightarrow> nat \<Rightarrow> nat" where
  "days_in_month y m =
     (if m = 2 then (if leap_year y then 29 else 28)
      else if m = 4 \<or> m = 6 \<or> m = 9 \<or> m = 11 then 30 else 31)"

definition is_calendar_date :: "string \<Rightarrow> bool" where
  "is_calendar_date s =
     (\<exists>y1 y2 y3 y4 m1 m2 d1 d2.
        s = [y1, y2, y3, y4, CHR ''-'', m1, m2, CHR ''-'', d1, d2] \<and>
        is_digit y1 \<and> is_digit y2 \<and> is_digit y3 \<and> is_digit y4 \<and>
        is_digit m1 \<and> is_digit m2 \<and> is_digit d1 \<and> is_digit d2 \<and>
        1 \<le> digit_val m1 * 10 + digit_val m2 \<and> digit_val m1 * 10 + digit_val m2 \<le> 12 \<and>
        1 \<le> digit_val d1 * 10 + digit_val d2 \<and>
        digit_val d1 * 10 + digit_val d2 \<le>
          days_in_month
            (digit_val y1 * 1000 + digit_val y2 * 100 + digit_val y3 * 10 + digit_val y4)
            (digit_val m1 * 10 + digit_val m2))"

lemma daysIn_calendar: "1 \<le> m \<Longrightarrow> m \<le> 12 \<Longrightarrow> daysIn m y = days_in_month y m"
proof -
  assume "1 \<le> m" "m \<le> 12"
  then have "m = 1 \<or> m = 2 \<or> m = 3 \<or> m = 4 \<or> m = 5 \<or> m = 6 \<or> m = 7 \<or> m = 8 \<or> m = 9 \<or>
             m = 10 \<or> m = 11 \<or> m = 12"
    by arith
  then show ?thesis
    by (elim disjE)
       (simp_all add: daysIn_def days_in_month_def isLeap_def leap_year_def dvd_eq_mod_eq_0)
qed

lemma four_or_more: "4 \<le> length v \<Longrightarrow> \<exists>a b c d rest. v = a # b # c # d # rest"
  by (auto simp: Suc_le_length_iff eval_nat_numeral)
lemma Parse_date_shape:
  assumes "Parse_date s = Some (y, m, d)"
  shows "\<exists>y1 y2 y3 y4 m1 m2 d1 d2.
        s = [y1, y2, y3, y4, CHR ''-'', m1, m2, CHR ''-'', d1, d2] \<and>
        is_digit y1 \<and> is_digit y2 \<and> is_digit y3 \<and> is_digit y4 \<and>
        is_digit m1 \<and> is_digit m2 \<and> is_digit d1 \<and> is_digit d2 \<and>
        y = digit_val y1 * 1000 + digit_val y2 * 100 + digit_val y3 * 10 + digit_val y4 \<and>
        m = digit_val m1 * 10 + digit_val m2 \<and> d = digit_val d1 * 10 + digit_val d2 \<and>
        1 \<le> m \<and> m \<le> 12 \<and> 1 \<le> d \<and> d \<le> daysIn m y"
proof -
  from assms have "4 \<le> length s"
    by (auto simp: Parse_date_def split: if_splits)
  then obtain y1 y2 y3 y4 rest where s: "s = y1 # y2 # y3 # y4 # rest"
    using four_or_more by blast
  from assms show ?thesis
    unfolding s
    by (auto simp: Parse_date_def getnum_def skip_def Let_def
        split: list.splits if_splits option.splits)
qed

lemma Parse_date_complete: "is_calendar_date s \<Longrightarrow> Parse_date s \<noteq> None"
proof -
  assume "is_calendar_date s"
  then obtain y1 y2 y3 y4 m1 m2 d1 d2 where
    s: "s = [y1, y2, y3, y4, CHR ''-'', m1, m2, CHR ''-'', d1, d2]" and
    dg: "is_digit y1" "is_digit y2" "is_digit y3" "is_digit y4"
      "is_digit m1" "is_digit m2" "is_digit d1" "is_digit d2" and
    m: "1 \<le> digit_val m1 * 10 + digit_val m2" "digit_val m1 * 10 + digit_val m2 \<le> 12" and
    d: "1 \<le> digit_val d1 * 10 + digit_val d2"
      "digit_val d1 * 10 + digit_val d2 \<le>
         days_in_month
           (digit_val y1 * 1000 + digit_val y2 * 100 + digit_val y3 * 10 + digit_val y4)
           (digit_val m1 * 10 + digit_val m2)"
    unfolding is_calendar_date_def by blast
  define Y where "Y = digit_val y1 * 1000 + digit_val y2 * 100 + digit_val y3 * 10 + digit_val y4"
  define M where "M = digit_val m1 * 10 + digit_val m2"
  define D where "D = digit_val d1 * 10 + digit_val d2"
  have yv: "foldl (\<lambda>n c. n * 10 + digit_val c) 0 [y1, y2, y3, y4] = Y"
    by (simp add: Y_def)
  have g1: "getnum [m1, m2, CHR ''-'', d1, d2] True = Some (M, [CHR ''-'', d1, d2])"
    using dg by (simp add: getnum_def M_def)
  have g2: "getnum [d1, d2] True = Some (D, [])"
    using dg by (simp add: getnum_def D_def)
  have dd: "\<not> daysIn M Y < D" "1 \<le> D" "1 \<le> M" "M \<le> 12"
    using m d by (simp_all add: daysIn_calendar M_def [symmetric] D_def [symmetric] Y_def [symmetric])
  have "Parse_date s = Some (Y, M, D)"
    unfolding Parse_date_def s using dg dd
    by (simp add: yv skip_def g1 g2 del: foldl_Cons)
  then show ?thesis by simp
qed
lemma Parse_date_sound: "Parse_date s \<noteq> None \<Longrightarrow> is_calendar_date s"
proof -
  assume "Parse_date s \<noteq> None"
  then obtain y m d where "Parse_date s = Some (y, m, d)"
    by auto
  from Parse_date_shape [OF this] show ?thesis
    unfolding is_calendar_date_def
    by (auto simp: daysIn_calendar)
qed
lemma Parse_date_rejects:
  "Parse_date ''2022-13-01'' = None" "Parse_date ''2022-02-30'' = None"
  "Parse_date ''2022-00-10'' = None" "Parse_date ''2022-01-00'' = None"
  "Parse_date ''2022-1-01'' = None" "Parse_date ''2022-01-01T13:01'' = None"
  "Parse_date ''01/02/2022'' = None" "Parse_date ''20220101'' = None"
  "Parse_date ''2023-02-29'' = None"
  by (simp_all add: Parse_date_def getnum_def skip_def chr_simps daysIn_def isLeap_def)

lemma Parse_date_accepts:
  "Parse_date ''2022-01-01'' = Some (2022, 1, 1)" "Parse_date ''2024-02-29'' = Some (2024, 2, 29)"
  by (simp_all add: Parse_date_def getnum_def skip_def chr_simps daysIn_def isLeap_def)

lemma validateReceipt_date:
  "Parse_date (PurchaseDate r) = None \<Longrightarrow> validateReceipt r = Some invalid"
  by (simp add: validateReceipt_def)

lemma validateReceipt_date_ok:
  "validateReceipt r = None \<Longrightarrow> Parse_date (PurchaseDate r) \<noteq> None"
  using validateReceipt_date [of r] by (cases "Parse_date (PurchaseDate r)") simp_all

text \<open>
  C5. \<open>validateReceipt\<close> accepts a receipt only if its purchaseDate is a calendar date
  written \<open>YYYY-MM-DD\<close>; \<open>time.Parse\<close> with the layout "2006-01-02" accepts exactly those
  strings. A receipt with the date "2022-13-01" is rejected, whatever its other fields,
  and so is one with a day that the month does not have, a one-digit month, text after
  the date, or a date in another form.
\<close>

theorem C5_date_is_calendar_date:
  "(validateReceipt r = None \<longrightarrow> is_calendar_date (PurchaseDate r))
   \<and> ((Parse_date s \<noteq> None) = is_calendar_date s)
   \<and> validateReceipt (r\<lparr>PurchaseDate := ''2022-13-01''\<rparr>) = Some invalid
   \<and> validateReceipt (r\<lparr>PurchaseDate := ''2022-02-30''\<rparr>) = Some invalid
   \<and> validateReceipt (r\<lparr>PurchaseDate := ''2023-02-29''\<rparr>) = Some invalid
   \<and> validateReceipt (r\<lparr>PurchaseDate := ''2022-01-00''\<rparr>) = Some invalid
   \<and> validateReceipt (r\<lparr>PurchaseDate := ''2022-1-01''\<rparr>) = Some invalid
   \<and> validateReceipt (r\<lparr>PurchaseDate := ''2022-01-01T13:01''\<rparr>) = Some invalid
   \<and> validateReceipt (r\<lparr>PurchaseDate := ''01/02/2022''\<rparr>) = Some invalid
   \<and> validateReceipt (r\<lparr>PurchaseDate := ''20220101''\<rparr>) = Some invalid"
proof -
  have a: "validateReceipt r = None \<longrightarrow> is_calendar_date (PurchaseDate r)"
    using validateReceipt_date_ok Parse_date_sound by blast
  have b: "(Parse_date s \<noteq> None) = is_calendar_date s"
    using Parse_date_sound Parse_date_complete by blast
  have c: "validateReceipt (r\<lparr>PurchaseDate := ''2022-13-01''\<rparr>) = Some invalid"
    "validateReceipt (r\<lparr>PurchaseDate := ''2022-02-30''\<rparr>) = Some invalid"
    "validateReceipt (r\<lparr>PurchaseDate := ''2023-02-29''\<rparr>) = Some invalid"
    "validateReceipt (r\<lparr>PurchaseDate := ''2022-01-00''\<rparr>) = Some invalid"
    "validateReceipt (r\<lparr>PurchaseDate := ''2022-1-01''\<rparr>) = Some invalid"
    "validateReceipt (r\<lparr>PurchaseDate := ''2022-01-01T13:01''\<rparr>) = Some invalid"
    "validateReceipt (r\<lparr>PurchaseDate := ''01/02/2022''\<rparr>) = Some invalid"
    "validateReceipt (r\<lparr>PurchaseDate := ''20220101''\<rparr>) = Some invalid"
    by (rule validateReceipt_date, simp add: Parse_date_rejects)+
  from a b c show ?thesis by blast
qed

theorem C5_date_is_calendar_date_witness:
  "validateReceipt target_receipt = None \<and> PurchaseDate target_receipt = ''2022-01-01'' \<and>
   is_calendar_date ''2022-01-01'' \<and> Parse_date ''2022-01-01'' = Some (2022, 1, 1)"
proof -
  have d: "PurchaseDate target_receipt = ''2022-01-01''"
    by (simp add: target_receipt_def)
  from C5_date_is_calendar_date [of target_receipt] target_valid
  have "is_calendar_date (PurchaseDate target_receipt)"
    by blast
  with d target_valid Parse_date_accepts(1) show ?thesis
    by simp
qed

section \<open>Insert, then look up\<close>

lemma uuid_shape_class: "uuid_shape i s \<Longrightarrow> list_all (in_class cls_uuid) s"
proof (induction s arbitrary: i)
  case Nil
  show ?case by simp
next
  case (Cons c cs)
  then have "c = CHR ''-'' \<or> is_hex c" and "uuid_shape (Suc i) cs"
    by (auto split: if_splits)
  then show ?case
    using Cons.IH by (auto simp: cls_uuid_def is_hex_def in_range_single)
qed

lemma uuid_chars: "is_uuid_string u \<Longrightarrow> u \<noteq> [] \<and> list_all (in_class cls_uuid) u"
proof -
  assume a: "is_uuid_string u"
  then have "list_all (in_class cls_uuid) u"
    unfolding is_uuid_string_def by (rule uuid_shape_class)
  moreover from a have "u \<noteq> []"
    by (cases u) (simp_all add: is_uuid_string_def)
  ultimately show ?thesis by simp
qed

lemma backtrack_whole:
  "u \<noteq> [] \<Longrightarrow> backtrack (length u) (u @ ''/points'') = Some u"
  by (cases u) (simp_all add: has_prefix_def)

lemma takeWhile_uuid:
  "list_all (in_class cls_uuid) u \<Longrightarrow> takeWhile (in_class cls_uuid) (u @ ''/points'') = u"
proof -
  assume "list_all (in_class cls_uuid) u"
  then have "\<And>x. x \<in> set u \<Longrightarrow> in_class cls_uuid x"
    by (simp add: list_all_iff)
  then have "takeWhile (in_class cls_uuid) (u @ ''/points'') =
      u @ takeWhile (in_class cls_uuid) ''/points''"
    by (rule takeWhile_append2)
  then show ?thesis
    by (simp add: cls_uuid_def chr_simps)
qed

lemma group_at_path:
  "u \<noteq> [] \<Longrightarrow> list_all (in_class cls_uuid) u \<Longrightarrow>
   group_at (''/receipts/'' @ u @ ''/points'') = Some u"
  by (simp add: group_at_def has_prefix_def takeWhile_uuid backtrack_whole)

lemma FindStringSubmatch_first: "group_at s = Some g \<Longrightarrow> FindStringSubmatch s = Some g"
  by (cases s) simp_all

lemma extractUUID_path:
  "u \<noteq> [] \<Longrightarrow> list_all (in_class cls_uuid) u \<Longrightarrow>
   extractUUID (''/receipts/'' @ u @ ''/points'') = u"
proof -
  assume u: "u \<noteq> []" "list_all (in_class cls_uuid) u"
  have "FindStringSubmatch (''/receipts/'' @ u @ ''/points'') = Some u"
    by (rule FindStringSubmatch_first) (rule group_at_path [OF u])
  then show ?thesis
    by (simp only: extractUUID_def option.case)
qed
definition example_uuid :: string where
  "example_uuid = ''7fb1377b-b223-49d9-a31a-5a02701dd310''"
lemma example_uuid_ok: "is_uuid_string example_uuid"
  by (simp add: example_uuid_def is_uuid_string_def is_hex_def chr_simps)

definition empty_store :: store where
  "empty_store = \<lparr>receipts = Map.empty, points = Map.empty\<rparr>"

text \<open>
  C9. When a receipt that the validator accepts is processed (the JSON decoder having
  returned it, the generator having returned the identifier \<open>u\<close>, a non-empty string of
  the bytes \<open>a-f\<close>, \<open>0-9\<close> and \<open>-\<close>, as every UUID string is), the handler answers with
  \<open>u\<close>, and a lookup with the path \<open>/receipts/u/points\<close> on the maps it leaves answers
  with exactly the points that \<open>calculatePoints\<close> gave for the receipt.
\<close>

theorem C9_round_trip:
  "(validateReceipt r = None \<and> u \<noteq> [] \<and> list_all (in_class cls_uuid) u \<longrightarrow>
      (\<exists>p st'. calculatePoints impl r = Inr p \<and>
         processReceiptHandler impl u (Some r) st = Inr (ResponseID u, st') \<and>
         points st' u = Some p \<and> receipts st' u = Some r \<and>
         getPointsHandler (''/receipts/'' @ u @ ''/points'') st' = ResponsePoints (sint p)))
   \<and> (is_uuid_string u \<longrightarrow> u \<noteq> [] \<and> list_all (in_class cls_uuid) u)"
proof (intro conjI impI)
  assume h: "validateReceipt r = None \<and> u \<noteq> [] \<and> list_all (in_class cls_uuid) u"
  obtain p where p: "calculatePoints impl r = Inr p"
    by (simp add: calculatePoints_sum)
  define st' where
    "st' = st\<lparr>points := (points st)(u \<mapsto> p), receipts := (receipts st)(u \<mapsto> r)\<rparr>"
  from h p have a: "processReceiptHandler impl u (Some r) st = Inr (ResponseID u, st')"
    by (simp add: processReceiptHandler_def st'_def)
  from h have e: "extractUUID (''/receipts/'' @ u @ ''/points'') = u"
    by (intro extractUUID_path) simp_all
  have b: "points st' u = Some p" "receipts st' u = Some r"
    by (simp_all add: st'_def)
  have c: "getPointsHandler (''/receipts/'' @ u @ ''/points'') st' = ResponsePoints (sint p)"
    unfolding getPointsHandler_def e by (simp add: b)
  from p a b c show "\<exists>p st'. calculatePoints impl r = Inr p \<and>
         processReceiptHandler impl u (Some r) st = Inr (ResponseID u, st') \<and>
         points st' u = Some p \<and> receipts st' u = Some r \<and>
         getPointsHandler (''/receipts/'' @ u @ ''/points'') st' = ResponsePoints (sint p)"
    by blast
next
  assume "is_uuid_string u"
  then show "u \<noteq> []" "list_all (in_class cls_uuid) u"
    using uuid_chars by blast+
qed

theorem C9_round_trip_witness:
  "validateReceipt target_receipt = None \<and> is_uuid_string example_uuid \<and>
   example_uuid \<noteq> [] \<and> list_all (in_class cls_uuid) example_uuid \<and>
   (\<exists>st'. processReceiptHandler (\<lambda>x. 0) example_uuid (Some target_receipt) empty_store =
            Inr (ResponseID example_uuid, st') \<and>
          getPointsHandler (''/receipts/'' @ example_uuid @ ''/points'') st' = ResponsePoints 28)"
proof -
  note inst = C9_round_trip [of target_receipt example_uuid "\<lambda>x. 0" empty_store]
  from inst example_uuid_ok have u: "example_uuid \<noteq> []" "list_all (in_class cls_uuid) example_uuid"
    by blast+
  with inst target_valid obtain p st' where
    p: "calculatePoints (\<lambda>x. 0) target_receipt = Inr p" and
    a: "processReceiptHandler (\<lambda>x. 0) example_uuid (Some target_receipt) empty_store =
          Inr (ResponseID example_uuid, st')" and
    g: "getPointsHandler (''/receipts/'' @ example_uuid @ ''/points'') st' = ResponsePoints (sint p)"
    by blast
  from p have "p = 28"
    by (simp add: target_score)
  then have "sint p = 28" by simp
  with a g target_valid example_uuid_ok u show ?thesis
    by auto
qed

section \<open>The two maps under concurrent requests\<close>

text \<open>Run one at a time, the handlers keep the keys of the two maps equal.\<close>

lemma processReceiptHandler_keeps_keys:
  assumes eq: "dom (points st) = dom (receipts st)"
    and run: "processReceiptHandler impl u decoded st = Inr (resp, st')"
  shows "dom (points st') = dom (receipts st')"
proof -
  from run have "st' = st \<or>
      (\<exists>p r. st' = st\<lparr>points := (points st)(u \<mapsto> p), receipts := (receipts st)(u \<mapsto> r)\<rparr>)"
    by (auto simp: processReceiptHandler_def Let_def split: option.splits sum.splits)
  then show ?thesis
  proof
    assume "st' = st"
    with eq show ?thesis by simp
  next
    assume "\<exists>p r. st' = st\<lparr>points := (points st)(u \<mapsto> p), receipts := (receipts st)(u \<mapsto> r)\<rparr>"
    then obtain p r where
      "st' = st\<lparr>points := (points st)(u \<mapsto> p), receipts := (receipts st)(u \<mapsto> r)\<rparr>"
      by blast
    with eq show ?thesis by simp
  qed
qed

text \<open>
  A run of two requests on the empty maps: an insert of the example receipt and a lookup
  of the identifier that the insert is given. The insert runs lines 170 and 171, then
  the lookup runs lines 144 and 145.
\<close>

definition race_0 :: config where
  "race_0 = \<lparr>maps = empty_store, locked = False,
             threads = [Insert_170 target_receipt, Lookup_144 example_uuid]\<rparr>"

definition race_1 :: config where
  "race_1 = \<lparr>maps = empty_store, locked = False,
             threads = [Insert_171 target_receipt example_uuid, Lookup_144 example_uuid]\<rparr>"

definition race_2 :: config where
  "race_2 = \<lparr>maps = empty_store\<lparr>points := [example_uuid \<mapsto> 28]\<rparr>, locked = False,
             threads = [Insert_172 target_receipt example_uuid, Lookup_144 example_uuid]\<rparr>"

definition race_3 :: config where
  "race_3 = \<lparr>maps = empty_store\<lparr>points := [example_uuid \<mapsto> 28]\<rparr>, locked = True,
             threads = [Insert_172 target_receipt example_uuid, Lookup_145 example_uuid]\<rparr>"

definition race_4 :: config where
  "race_4 = \<lparr>maps = empty_store\<lparr>points := [example_uuid \<mapsto> 28]\<rparr>, locked = True,
             threads = [Insert_172 target_receipt example_uuid,
                        Lookup_146 example_uuid (Some 28)]\<rparr>"

lemma race_step_1: "step impl race_0 race_1"
proof -
  have "thread_step impl (maps race_0, locked race_0, threads race_0 ! 0)
          (empty_store, False, Insert_171 target_receipt example_uuid)"
    by (simp add: race_0_def line_170 example_uuid_ok)
  from step.intros [OF _ this] show ?thesis
    by (simp add: race_0_def race_1_def)
qed

lemma race_step_2: "step impl race_1 race_2"
proof -
  have "thread_step impl (maps race_1, locked race_1, threads race_1 ! 0)
          (empty_store\<lparr>points := (points empty_store)(example_uuid \<mapsto> 28)\<rparr>, False,
           Insert_172 target_receipt example_uuid)"
    by (simp add: race_1_def line_171 target_score)
  from step.intros [OF _ this] show ?thesis
    by (simp add: race_1_def race_2_def empty_store_def)
qed

lemma race_step_3: "step impl race_2 race_3"
proof -
  have "thread_step impl (maps race_2, locked race_2, threads race_2 ! 1)
          (maps race_2, True, Lookup_145 example_uuid)"
    by (simp add: race_2_def line_144)
  from step.intros [OF _ this] show ?thesis
    by (simp add: race_2_def race_3_def)
qed

lemma race_step_4: "step impl race_3 race_4"
proof -
  have "thread_step impl (maps race_3, locked race_3, Lookup_145 example_uuid)
          (maps race_3, locked race_3,
           Lookup_146 example_uuid (points (maps race_3) example_uuid))"
    by (rule line_145)
  then have "thread_step impl (maps race_3, locked race_3, threads race_3 ! 1)
          (maps race_3, locked race_3, Lookup_146 example_uuid (Some 28))"
    by (simp add: race_3_def)
  from step.intros [OF _ this] show ?thesis
    by (simp add: race_3_def race_4_def)
qed

text \<open>
  C2 does not hold of the source: \<open>points[id]\<close> is written at line 171, before the mutex
  is taken at line 172. In the run above the lookup holds the mutex at line 145 while
  the identifier is a key of \<open>points\<close> and not of \<open>receipts\<close>, and it reads 28 points for
  a receipt that is not stored.
\<close>

theorem C2_points_written_before_the_lock:
  "reachable impl race_0 race_3 \<and> locked race_3 \<and>
   threads race_3 ! 1 = Lookup_145 example_uuid \<and>
   example_uuid \<in> dom (points (maps race_3)) \<and>
   example_uuid \<notin> dom (receipts (maps race_3)) \<and>
   reachable impl race_0 race_4 \<and>
   threads race_4 ! 1 = Lookup_146 example_uuid (Some 28) \<and>
   receipts (maps race_4) example_uuid = None"
proof -
  have "reachable impl race_0 race_0"
    by (rule reachable.start)
  then have "reachable impl race_0 race_1"
    using race_step_1 by (rule reachable.next_step)
  then have "reachable impl race_0 race_2"
    using race_step_2 by (rule reachable.next_step)
  then have r3: "reachable impl race_0 race_3"
    using race_step_3 by (rule reachable.next_step)
  then have r4: "reachable impl race_0 race_4"
    using race_step_4 by (rule reachable.next_step)
  from r3 r4 show ?thesis
    by (simp add: race_3_def race_4_def empty_store_def)
qed

end
